theory Spec2Isabelle
  imports
    Complex_Main
    "HOL-Library.AList"
    "HOL-Library.Char_ord"
    "HOL-Library.List_Lexorder"
    "HOL-Library.Sublist"
begin

section \<open>Python values\<close>

text \<open>
  The three extractors pass parsed JSON around as plain Python values. A JSON value is
  modelled as it arrives from \<^verbatim>\<open>r.json()\<close>: \<open>JNull\<close> is Python's \<^verbatim>\<open>None\<close>, an object is
  a dict in insertion order (its keys are pairwise distinct, as in any Python dict).
  Numbers are never computed with, only carried and compared with \<^verbatim>\<open>None\<close>, so they are
  real numbers here. Strings are ordered as Python orders them, character by character.
\<close>

datatype json =
    JNull
  | JBool bool
  | JNum real
  | JStr string
  | JArr "json list"
  | JObj "(string \<times> json) list"

datatype error = TypeError | AttributeError | KeyError | IndexError

text \<open>Truth value of a Python object (\<^verbatim>\<open>if x\<close>, \<^verbatim>\<open>not x\<close>).\<close>

fun truthy :: "json \<Rightarrow> bool" where
  "truthy JNull = False"
| "truthy (JBool b) = b"
| "truthy (JNum x) = (x \<noteq> 0)"
| "truthy (JStr s) = (s \<noteq> [])"
| "truthy (JArr xs) = (xs \<noteq> [])"
| "truthy (JObj kvs) = (kvs \<noteq> [])"

text \<open>\<^verbatim>\<open>d.get(k, default)\<close>: only a dict has the method.\<close>

fun py_get :: "json \<Rightarrow> string \<Rightarrow> json \<Rightarrow> error + json" where
  "py_get (JObj kvs) k dflt = Inr (case map_of kvs k of None \<Rightarrow> dflt | Some v \<Rightarrow> v)"
| "py_get _ k dflt = Inl AttributeError"

text \<open>\<^verbatim>\<open>k in x\<close> for a string \<open>k\<close>: key of a dict, element of a list, substring of a string.\<close>

fun py_in :: "string \<Rightarrow> json \<Rightarrow> error + bool" where
  "py_in k (JObj kvs) = Inr (k \<in> fst ` set kvs)"
| "py_in k (JArr xs) = Inr (JStr k \<in> set xs)"
| "py_in k (JStr s) = Inr (sublist k s)"
| "py_in k _ = Inl TypeError"

text \<open>\<^verbatim>\<open>x[k]\<close> for a string \<open>k\<close>.\<close>

fun py_item :: "json \<Rightarrow> string \<Rightarrow> error + json" where
  "py_item (JObj kvs) k = (case map_of kvs k of None \<Rightarrow> Inl KeyError | Some v \<Rightarrow> Inr v)"
| "py_item _ k = Inl TypeError"

text \<open>\<^verbatim>\<open>len(x)\<close>.\<close>

fun py_len :: "json \<Rightarrow> error + nat" where
  "py_len (JStr s) = Inr (length s)"
| "py_len (JArr xs) = Inr (length xs)"
| "py_len (JObj kvs) = Inr (length kvs)"
| "py_len _ = Inl TypeError"

text \<open>\<^verbatim>\<open>x[1]\<close>.\<close>

fun py_index1 :: "json \<Rightarrow> error + json" where
  "py_index1 (JArr xs) = (if 1 < length xs then Inr (xs ! 1) else Inl IndexError)"
| "py_index1 (JStr s) = (if 1 < length s then Inr (JStr [s ! 1]) else Inl IndexError)"
| "py_index1 (JObj kvs) = Inl KeyError"
| "py_index1 _ = Inl TypeError"

text \<open>\<^verbatim>\<open>for r in x\<close>: the elements of a list, the keys of a dict, the characters of a string.\<close>

fun py_iter :: "json \<Rightarrow> error + json list" where
  "py_iter (JArr xs) = Inr xs"
| "py_iter (JObj kvs) = Inr (map (\<lambda>kv. JStr (fst kv)) kvs)"
| "py_iter (JStr s) = Inr (map (\<lambda>c. JStr [c]) s)"
| "py_iter _ = Inl TypeError"

text \<open>
  Keys of a dict that the code builds itself: lists and dicts cannot be hashed, and a
  boolean key is the same key as the number it equals. Storing under an existing key
  keeps the key object and its position and replaces the value.
\<close>

fun hashable :: "json \<Rightarrow> bool" where
  "hashable (JArr _) = False"
| "hashable (JObj _) = False"
| "hashable _ = True"

fun num_of :: "json \<Rightarrow> real option" where
  "num_of (JBool b) = Some (if b then 1 else 0)"
| "num_of (JNum x) = Some x"
| "num_of _ = None"

definition py_eq :: "json \<Rightarrow> json \<Rightarrow> bool" where
  "py_eq a b =
     (case (num_of a, num_of b) of
        (Some x, Some y) \<Rightarrow> x = y
      | (None, None) \<Rightarrow> a = b
      | _ \<Rightarrow> False)"

fun dict_put :: "json \<Rightarrow> json \<Rightarrow> (json \<times> json) list \<Rightarrow> (json \<times> json) list" where
  "dict_put k v [] = [(k, v)]"
| "dict_put k v ((k', v') # d) = (if py_eq k' k then (k', v) # d else (k', v') # dict_put k v d)"


section \<open>HTTP fetcher\<close>

text \<open>
  One attempt of \<^verbatim>\<open>requests.get\<close>, \<^verbatim>\<open>raise_for_status\<close> and \<^verbatim>\<open>r.json()\<close> either yields the
  parsed body or raises, with the message that \<^verbatim>\<open>get_json\<close> prints. The remote side is a
  function from the attempt number (counted from 0) to that outcome. What \<^verbatim>\<open>get_json\<close>
  does besides returning is kept as a list of events.
\<close>

datatype outcome = Succeeds json | Raises string

datatype event = Sleep nat | Print string

text \<open>
  The body of \<^verbatim>\<open>for attempt in range(retries)\<close> of \<^verbatim>\<open>ecuador_imf.get_json\<close>; a loop that
  runs out (only when \<open>retries \<le> 0\<close>) falls off the function, which returns \<^verbatim>\<open>None\<close>.
\<close>

fun get_json_imf_loop :: "(nat \<Rightarrow> outcome) \<Rightarrow> int \<Rightarrow> nat list \<Rightarrow> event list \<Rightarrow> json \<times> event list" where
  "get_json_imf_loop fetch retries [] evs = (JNull, evs)"
| "get_json_imf_loop fetch retries (attempt # rest) evs =
     (case fetch attempt of
        Succeeds v \<Rightarrow> (v, evs)
      | Raises e \<Rightarrow>
          if int attempt < retries - 1
          then get_json_imf_loop fetch retries rest (evs @ [Sleep (2 ^ attempt)])
          else (JNull, evs @ [Print (''  FAILED: '' @ e)]))"

definition get_json_imf :: "(nat \<Rightarrow> outcome) \<Rightarrow> int \<Rightarrow> json \<times> event list" where
  "get_json_imf fetch retries = get_json_imf_loop fetch retries [0 ..< nat retries] []"

text \<open>
  \<^verbatim>\<open>ecuador_worldbank.get_json\<close> is the same loop, except that a parsed body is handed
  back only when it is a list of exactly two elements; any other body makes it return
  \<^verbatim>\<open>None\<close> at once, without retry and without a message.
\<close>

fun is_pair_list :: "json \<Rightarrow> bool" where
  "is_pair_list (JArr xs) = (length xs = 2)"
| "is_pair_list _ = False"

fun get_json_wb_loop :: "(nat \<Rightarrow> outcome) \<Rightarrow> int \<Rightarrow> nat list \<Rightarrow> event list \<Rightarrow> json \<times> event list" where
  "get_json_wb_loop fetch retries [] evs = (JNull, evs)"
| "get_json_wb_loop fetch retries (attempt # rest) evs =
     (case fetch attempt of
        Succeeds data \<Rightarrow> (if is_pair_list data then (data, evs) else (JNull, evs))
      | Raises e \<Rightarrow>
          if int attempt < retries - 1
          then get_json_wb_loop fetch retries rest (evs @ [Sleep (2 ^ attempt)])
          else (JNull, evs @ [Print (''  FAILED: '' @ e)]))"

definition get_json_wb :: "(nat \<Rightarrow> outcome) \<Rightarrow> int \<Rightarrow> json \<times> event list" where
  "get_json_wb fetch retries = get_json_wb_loop fetch retries [0 ..< nat retries] []"

text \<open>The warnings and the delays among the events of a call.\<close>

fun is_print :: "event \<Rightarrow> bool" where
  "is_print (Print _) = True"
| "is_print (Sleep _) = False"

definition warnings :: "event list \<Rightarrow> event list" where
  "warnings evs = filter is_print evs"

fun delays :: "event list \<Rightarrow> nat list" where
  "delays [] = []"
| "delays (Sleep s # es) = s # delays es"
| "delays (Print _ # es) = delays es"


section \<open>Series downloaders\<close>

text \<open>
  The network is a function from the requested URL to the remote side of that request.
  Each indicator is requested once per run, with the default of three attempts.
\<close>

definition BASE :: string where
  "BASE = ''https://www.imf.org/external/datamapper/api/v1''"

definition API_BASE :: string where
  "API_BASE = ''https://api.worldbank.org/v2''"

definition COUNTRY :: string where
  "COUNTRY = ''ECU''"

text \<open>\<^verbatim>\<open>ecuador_imf.fetch_indicator_data\<close>.\<close>

definition fetch_indicator_data_imf :: "(string \<Rightarrow> nat \<Rightarrow> outcome) \<Rightarrow> string \<Rightarrow> error + json" where
  "fetch_indicator_data_imf net code =
     (let data = fst (get_json_imf (net (BASE @ ''/'' @ code @ ''/'' @ COUNTRY)) 3) in
      if \<not> truthy data then Inr (JObj [])
      else case py_in ''values'' data of
        Inl e \<Rightarrow> Inl e
      | Inr False \<Rightarrow> Inr (JObj [])
      | Inr True \<Rightarrow>
          (case py_item data ''values'' of
             Inl e \<Rightarrow> Inl e
           | Inr vals \<Rightarrow>
               (case py_get vals code (JObj []) of
                  Inl e \<Rightarrow> Inl e
                | Inr series \<Rightarrow> py_get series COUNTRY (JObj []))))"

text \<open>\<^verbatim>\<open>ecuador_worldbank.fetch_indicator_data\<close>: the loop over the records, then the function.\<close>

fun wb_records :: "json list \<Rightarrow> (json \<times> json) list \<Rightarrow> error + (json \<times> json) list" where
  "wb_records [] result = Inr result"
| "wb_records (record # rest) result =
     (case py_get record ''date'' JNull of
        Inl e \<Rightarrow> Inl e
      | Inr year \<Rightarrow>
          (case py_get record ''value'' JNull of
             Inl e \<Rightarrow> Inl e
           | Inr val \<Rightarrow>
               if truthy year \<and> val \<noteq> JNull
               then (if hashable year then wb_records rest (dict_put year val result)
                     else Inl TypeError)
               else wb_records rest result))"

definition fetch_indicator_data_wb ::
    "(string \<Rightarrow> nat \<Rightarrow> outcome) \<Rightarrow> string \<Rightarrow> error + (json \<times> json) list" where
  "fetch_indicator_data_wb net indicator_id =
     (let resp = fst (get_json_wb
                   (net (API_BASE @ ''/country/'' @ COUNTRY @ ''/indicator/'' @ indicator_id)) 3) in
      if \<not> truthy resp then Inr []
      else case py_index1 resp of
        Inl e \<Rightarrow> Inl e
      | Inr records \<Rightarrow>
          if \<not> truthy records then Inr []
          else (case py_iter records of
                  Inl e \<Rightarrow> Inl e
                | Inr recs \<Rightarrow> wb_records recs []))"


section \<open>Download loops\<close>

text \<open>
  The state of the per-indicator loop of \<^verbatim>\<open>main\<close>: the collected series and the three
  counters that the summary line prints. The World Bank loop keeps the descriptive
  fields of each indicator beside them.
\<close>

record 'r run =
  st_all_data :: "(string \<times> 'r) list"
  st_success :: nat
  st_empty :: nat
  st_failed :: nat

datatype wb_info =
  Info (info_code: string) (info_name: string) (info_source_org: string) (info_topics: string)

record 'r wb_run = "'r run" +
  st_indicator_info :: "(string \<times> wb_info) list"

text \<open>The body of the loop of \<^verbatim>\<open>ecuador_imf.main\<close>, and the loop over the sorted catalogue.\<close>

definition imf_step ::
    "(string \<Rightarrow> nat \<Rightarrow> outcome) \<Rightarrow> string \<times> string \<Rightarrow> json run \<Rightarrow> error + json run" where
  "imf_step net ind st =
     (case fetch_indicator_data_imf net (fst ind) of
        Inl e \<Rightarrow> Inl e
      | Inr result \<Rightarrow>
          (case (if truthy result then py_len result else Inr 0) of
             Inl e \<Rightarrow> Inl e
           | Inr n \<Rightarrow>
               if truthy result \<and> 0 < n
               then Inr (st\<lparr>st_all_data := AList.update (fst ind) result (st_all_data st),
                            st_success := st_success st + 1\<rparr>)
               else if result \<noteq> JNull
               then Inr (st\<lparr>st_empty := st_empty st + 1\<rparr>)
               else Inr (st\<lparr>st_failed := st_failed st + 1\<rparr>)))"

fun imf_loop ::
    "(string \<Rightarrow> nat \<Rightarrow> outcome) \<Rightarrow> (string \<times> string) list \<Rightarrow> json run \<Rightarrow> error + json run" where
  "imf_loop net [] st = Inr st"
| "imf_loop net (ind # rest) st =
     (case imf_step net ind st of Inl e \<Rightarrow> Inl e | Inr st' \<Rightarrow> imf_loop net rest st')"

definition imf_main_loop ::
    "(string \<Rightarrow> nat \<Rightarrow> outcome) \<Rightarrow> (string \<times> string) list \<Rightarrow> error + json run" where
  "imf_main_loop net indicators =
     imf_loop net (sort_key snd indicators)
       \<lparr>st_all_data = [], st_success = 0, st_empty = 0, st_failed = 0\<rparr>"

text \<open>
  A catalogue entry of the World Bank, with the fields the loop reads: \<^verbatim>\<open>id\<close>, and the
  optional \<^verbatim>\<open>name\<close>, \<^verbatim>\<open>sourceOrganization\<close> and the \<^verbatim>\<open>value\<close> of each topic.
\<close>

datatype wb_indicator =
  Indicator (ind_id: string) (ind_name: "string option") (ind_source: "string option")
    (ind_topics: "string option list")

fun join :: "string \<Rightarrow> string list \<Rightarrow> string" where
  "join sep [] = []"
| "join sep [x] = x"
| "join sep (x # y # xs) = x @ sep @ join sep (y # xs)"

definition topics_of :: "wb_indicator \<Rightarrow> string" where
  "topics_of ind =
     join '', '' (map (\<lambda>t. case t of None \<Rightarrow> [] | Some v \<Rightarrow> v)
                   (filter (\<lambda>t. case t of None \<Rightarrow> False | Some v \<Rightarrow> v \<noteq> []) (ind_topics ind)))"

definition wb_step ::
    "(string \<Rightarrow> nat \<Rightarrow> outcome) \<Rightarrow> wb_indicator \<Rightarrow> (json \<times> json) list wb_run
       \<Rightarrow> error + (json \<times> json) list wb_run" where
  "wb_step net ind st =
     (let code = ind_id ind;
          name = (case ind_name ind of None \<Rightarrow> code | Some n \<Rightarrow> n);
          source_org = (case ind_source ind of None \<Rightarrow> [] | Some s \<Rightarrow> s);
          topics = topics_of ind
      in case fetch_indicator_data_wb net code of
           Inl e \<Rightarrow> Inl e
         | Inr result \<Rightarrow>
             if result \<noteq> []
             then Inr (st\<lparr>st_all_data := AList.update code result (st_all_data st),
                          st_indicator_info :=
                            AList.update code (Info code name source_org topics)
                              (st_indicator_info st),
                          st_success := st_success st + 1\<rparr>)
             else Inr (st\<lparr>st_empty := st_empty st + 1\<rparr>))"

fun wb_loop ::
    "(string \<Rightarrow> nat \<Rightarrow> outcome) \<Rightarrow> wb_indicator list \<Rightarrow> (json \<times> json) list wb_run
       \<Rightarrow> error + (json \<times> json) list wb_run" where
  "wb_loop net [] st = Inr st"
| "wb_loop net (ind # rest) st =
     (case wb_step net ind st of Inl e \<Rightarrow> Inl e | Inr st' \<Rightarrow> wb_loop net rest st')"

definition wb_main_loop ::
    "(string \<Rightarrow> nat \<Rightarrow> outcome) \<Rightarrow> wb_indicator list \<Rightarrow> error + (json \<times> json) list wb_run" where
  "wb_main_loop net all_indicators =
     wb_loop net all_indicators
       \<lparr>st_all_data = [], st_success = 0, st_empty = 0, st_failed = 0, st_indicator_info = []\<rparr>"

section \<open>Panel builders\<close>

text \<open>
  The reshaping step is typed as the source annotates it: \<^verbatim>\<open>all_data\<close> maps an indicator
  code to its series, a series maps a period to a float, and \<^verbatim>\<open>None\<close> is admitted as a
  stored value (the IMF downloader passes on whatever the provider sent). A dict is the
  list of its items in insertion order. A cell of a row holds a string or a number.
\<close>

type_synonym series = "(string \<times> real option) list"

datatype cell = Text string | Number real

type_synonym row = "(string \<times> cell) list"

definition column_name :: "string \<Rightarrow> string \<Rightarrow> string" where
  "column_name label code = label @ '' ['' @ code @ '']''"

text \<open>\<^verbatim>\<open>value if value is not None else ""\<close>.\<close>

fun render :: "real option \<Rightarrow> cell" where
  "render None = Text []"
| "render (Some v) = Number v"

text \<open>\<^verbatim>\<open>d.get(year)\<close> on a series: \<^verbatim>\<open>None\<close> for a missing period and for a stored \<^verbatim>\<open>None\<close>.\<close>

definition series_get :: "series \<Rightarrow> string \<Rightarrow> real option" where
  "series_get year_dict year = (case map_of year_dict year of None \<Rightarrow> None | Some v \<Rightarrow> v)"

text \<open>\<^verbatim>\<open>ecuador_imf.build_panel\<close>: the set of years, one row, all rows.\<close>

definition all_years :: "(string \<times> series) list \<Rightarrow> string set" where
  "all_years all_data = fold (\<lambda>(code, year_dict) acc. acc \<union> set (map fst year_dict)) all_data {}"

definition build_row :: "(string \<times> series) list \<Rightarrow> (string \<times> string) list \<Rightarrow> string \<Rightarrow> row" where
  "build_row all_data indicators year =
     fold (\<lambda>(code, label) row.
             AList.update (column_name label code)
               (render (series_get (case map_of all_data code of None \<Rightarrow> [] | Some d \<Rightarrow> d) year))
               row)
          (sort_key snd indicators)
          [(''Year'', Text year)]"

definition build_panel :: "(string \<times> series) list \<Rightarrow> (string \<times> string) list \<Rightarrow> row list" where
  "build_panel all_data indicators =
     map (build_row all_data indicators) (sorted_list_of_set (all_years all_data))"

text \<open>\<^verbatim>\<open>kept = {k: v for k, v in indicators.items() if k in all_data}\<close>.\<close>

definition kept :: "(string \<times> string) list \<Rightarrow> (string \<times> 'r) list \<Rightarrow> (string \<times> string) list" where
  "kept indicators all_data = filter (\<lambda>(k, v). k \<in> fst ` set all_data) indicators"

text \<open>
  The check of \<^verbatim>\<open>csv.DictWriter\<close> on each row it writes: the keys of the row that are not
  among the field names; the writer raises when there is one.
\<close>

definition wrong_fields :: "string list \<Rightarrow> row \<Rightarrow> string list" where
  "wrong_fields fieldnames rowdict = filter (\<lambda>k. k \<notin> set fieldnames) (map fst rowdict)"

text \<open>
  The same step inside \<^verbatim>\<open>ecuador_worldbank.main\<close>. The columns run over the sorted codes
  of \<^verbatim>\<open>all_data\<close>; both subscripts \<^verbatim>\<open>all_data[code]\<close> and \<^verbatim>\<open>indicator_info[code]\<close> raise on
  a missing key.
\<close>

definition wb_all_years :: "(string \<times> series) list \<Rightarrow> string set" where
  "wb_all_years all_data = fold (\<lambda>year_dict acc. acc \<union> set (map fst year_dict)) (map snd all_data) {}"

fun wb_row_loop ::
    "(string \<times> series) list \<Rightarrow> (string \<times> wb_info) list \<Rightarrow> string \<Rightarrow> string list \<Rightarrow> row \<Rightarrow> error + row" where
  "wb_row_loop all_data indicator_info year [] row = Inr row"
| "wb_row_loop all_data indicator_info year (code # rest) row =
     (case map_of all_data code of
        None \<Rightarrow> Inl KeyError
      | Some year_dict \<Rightarrow>
          (case map_of indicator_info code of
             None \<Rightarrow> Inl KeyError
           | Some info \<Rightarrow>
               wb_row_loop all_data indicator_info year rest
                 (AList.update (column_name (info_name info) code)
                    (render (series_get year_dict year)) row)))"

definition wb_build_row ::
    "(string \<times> series) list \<Rightarrow> (string \<times> wb_info) list \<Rightarrow> string \<Rightarrow> error + row" where
  "wb_build_row all_data indicator_info year =
     wb_row_loop all_data indicator_info year (sort (map fst all_data)) [(''Year'', Text year)]"

fun wb_rows_loop ::
    "(string \<times> series) list \<Rightarrow> (string \<times> wb_info) list \<Rightarrow> string list \<Rightarrow> row list \<Rightarrow> error + row list" where
  "wb_rows_loop all_data indicator_info [] rows = Inr rows"
| "wb_rows_loop all_data indicator_info (year # rest) rows =
     (case wb_build_row all_data indicator_info year of
        Inl e \<Rightarrow> Inl e
      | Inr row \<Rightarrow> wb_rows_loop all_data indicator_info rest (rows @ [row]))"

definition wb_build_panel ::
    "(string \<times> series) list \<Rightarrow> (string \<times> wb_info) list \<Rightarrow> error + row list" where
  "wb_build_panel all_data indicator_info =
     wb_rows_loop all_data indicator_info (sorted_list_of_set (wb_all_years all_data)) []"


section \<open>Metadata\<close>

text \<open>
  \<^verbatim>\<open>years = sorted(d.keys()); span = f"{years[0]}-{years[-1]}" if years else ""\<close>, the same
  two lines in both extractors, and the metadata rows that carry the span.
\<close>

definition years_available :: "(string \<times> 'v) list \<Rightarrow> string" where
  "years_available year_dict =
     (let years = sort (map fst year_dict)
      in if years \<noteq> [] then hd years @ ''-'' @ last years else [])"

fun imf_metadata_loop ::
    "(string \<times> (string \<times> 'v) list) list \<Rightarrow> (string \<times> string) list \<Rightarrow> error + (string \<times> string \<times> string) list" where
  "imf_metadata_loop all_data [] = Inr []"
| "imf_metadata_loop all_data ((code, label) # rest) =
     (case map_of all_data code of
        None \<Rightarrow> Inl KeyError
      | Some year_dict \<Rightarrow>
          (case imf_metadata_loop all_data rest of
             Inl e \<Rightarrow> Inl e
           | Inr written \<Rightarrow> Inr ((code, label, years_available year_dict) # written)))"

definition imf_metadata ::
    "(string \<times> (string \<times> 'v) list) list \<Rightarrow> (string \<times> string) list \<Rightarrow> error + (string \<times> string \<times> string) list" where
  "imf_metadata all_data kept_inds = imf_metadata_loop all_data (sort_key snd kept_inds)"

fun wb_metadata_loop ::
    "(string \<times> (string \<times> 'v) list) list \<Rightarrow> (string \<times> wb_info) list \<Rightarrow> string list \<Rightarrow> error + (wb_info \<times> string) list" where
  "wb_metadata_loop all_data indicator_info [] = Inr []"
| "wb_metadata_loop all_data indicator_info (code # rest) =
     (case map_of indicator_info code of
        None \<Rightarrow> Inl KeyError
      | Some info \<Rightarrow>
          (case map_of all_data code of
             None \<Rightarrow> Inl KeyError
           | Some year_dict \<Rightarrow>
               (case wb_metadata_loop all_data indicator_info rest of
                  Inl e \<Rightarrow> Inl e
                | Inr written \<Rightarrow> Inr ((info, years_available year_dict) # written))))"

definition wb_metadata ::
    "(string \<times> (string \<times> 'v) list) list \<Rightarrow> (string \<times> wb_info) list \<Rightarrow> error + (wb_info \<times> string) list" where
  "wb_metadata all_data indicator_info =
     wb_metadata_loop all_data indicator_info (sort (map fst indicator_info))"

section \<open>Category crawler\<close>

text \<open>
  The category tree as the two requests of \<^verbatim>\<open>crawl_category\<close> see it. At a category the
  request for its series either fails or lists entries, and so does the request for its
  children; \<open>None\<close> is the failed request. An entry is read with \<^verbatim>\<open>s["id"]\<close> and
  \<^verbatim>\<open>s.get("title", s["id"])\<close>, a child with \<^verbatim>\<open>child['name']\<close> and \<^verbatim>\<open>child['id']\<close>; a field
  that is absent is \<open>None\<close>. The tree is finite; neither the interpreter's recursion
  limit nor the pauses between requests are part of the model.
\<close>

datatype series_entry = SeriesEntry (entry_id: "string option") (entry_title: "string option")

datatype category = Category (cat_series: "series_entry list option") (cat_children: "child list option")
  and child = Child (child_name: "string option") (child_id: "int option") (child_tree: category)

text \<open>
  The loop over \<^verbatim>\<open>data.get("seriess", [])\<close>. An entry without \<^verbatim>\<open>id\<close> raises inside the
  \<^verbatim>\<open>try\<close>, which ends the loop with a warning and keeps what was recorded before.
\<close>

fun record_series :: "series_entry list \<Rightarrow> (string \<times> string) list \<Rightarrow> (string \<times> string) list" where
  "record_series [] all_series = all_series"
| "record_series (SeriesEntry None t # rest) all_series = all_series"
| "record_series (SeriesEntry (Some i) t # rest) all_series =
     record_series rest (AList.update i (case t of None \<Rightarrow> i | Some l \<Rightarrow> l) all_series)"

text \<open>
  \<^verbatim>\<open>crawl_category\<close> and its loop over the children. A child without \<^verbatim>\<open>name\<close> or \<^verbatim>\<open>id\<close>
  raises in the \<^verbatim>\<open>print\<close>, inside the \<^verbatim>\<open>try\<close> whose handler is \<^verbatim>\<open>pass\<close>: the remaining
  children are not visited.
\<close>

function (sequential)
  crawl_category :: "category \<Rightarrow> (string \<times> string) list \<Rightarrow> (string \<times> string) list" and
  crawl_children :: "child list \<Rightarrow> (string \<times> string) list \<Rightarrow> (string \<times> string) list"
where
  "crawl_category (Category sr cr) all_series =
     (let seen = (case sr of None \<Rightarrow> all_series | Some ss \<Rightarrow> record_series ss all_series)
      in case cr of None \<Rightarrow> seen | Some children \<Rightarrow> crawl_children children seen)"
| "crawl_children [] all_series = all_series"
| "crawl_children (Child nm ci sub # rest) all_series =
     (if nm = None \<or> ci = None then all_series
      else crawl_children rest (crawl_category sub all_series))"
  by pat_completeness auto
termination
  by (relation "measure (\<lambda>x. case x of Inl (c, _) \<Rightarrow> size c | Inr (cs, _) \<Rightarrow> size_list size cs)") auto

definition discover_ecuador_series :: "category \<Rightarrow> (string \<times> string) list" where
  "discover_ecuador_series tree = crawl_category tree []"


section \<open>Orchestrator\<close>

text \<open>
  What \<^verbatim>\<open>count_csvs\<close> reads of the file system: a directory is absent or holds its
  \<^verbatim>\<open>*.csv\<close> entries, and an entry has a number of lines or cannot be read as UTF-8 text
  (\<open>None\<close>). A Python integer is an \<open>int\<close>: an entry with no line at all counts \<open>-1\<close>.
\<close>

type_synonym csv_file = "nat option"

type_synonym directory = "csv_file list option"

fun count_rows :: "csv_file list \<Rightarrow> int \<Rightarrow> int" where
  "count_rows [] total_rows = total_rows"
| "count_rows (Some n # fs) total_rows = count_rows fs (total_rows + (int n - 1))"
| "count_rows (None # fs) total_rows = count_rows fs total_rows"

fun count_csvs :: "directory \<Rightarrow> int \<times> int" where
  "count_csvs None = (0, 0)"
| "count_csvs (Some csv_files) = (int (length csv_files), count_rows csv_files 0)"

definition SCRIPTS :: "(string \<times> string) list" where
  "SCRIPTS =
     [(''IMF DataMapper'', ''ecuador_imf.py''),
      (''World Bank (WDI)'', ''ecuador_worldbank.py''),
      (''FRED'', ''ecuador_fred.py'')]"

definition data_dirs :: "(string \<times> string) list" where
  "data_dirs =
     [(''IMF DataMapper'', ''ecuador_data/imf''),
      (''World Bank (WDI)'', ''ecuador_data/worldbank''),
      (''FRED'', ''ecuador_data/fred'')]"

text \<open>
  The audit of \<^verbatim>\<open>ecuador_run_all.main\<close>. \<open>results\<close> is what the first loop left for each
  provider: its status text and its elapsed time. A summary line is the tuple that the
  \<^verbatim>\<open>print\<close> formats: name, status, number of files, number of rows, seconds.
\<close>

record summary_line =
  line_name :: string
  line_status :: string
  line_files :: int
  line_rows :: int
  line_elapsed :: real

definition summary_lines ::
    "(string \<Rightarrow> directory) \<Rightarrow> (string \<times> string \<times> real) list \<Rightarrow> summary_line list" where
  "summary_lines fs results =
     map (\<lambda>(name, script).
            let status = map_of results name;
                ddir = map_of data_dirs name;
                (n_files, n_rows) = (case ddir of Some d \<Rightarrow> count_csvs (fs d) | None \<Rightarrow> (0, 0));
                elapsed = (case status of Some (s, t) \<Rightarrow> t | None \<Rightarrow> 0)
            in \<lparr>line_name = name,
                line_status = (case status of Some (s, t) \<Rightarrow> s | None \<Rightarrow> ''?''),
                line_files = n_files, line_rows = n_rows, line_elapsed = elapsed\<rparr>)
         SCRIPTS"

definition total_files :: "(string \<Rightarrow> directory) \<Rightarrow> int" where
  "total_files fs =
     sum_list (map (\<lambda>d. fst (count_csvs (fs d))) (filter (\<lambda>d. fs d \<noteq> None) (map snd data_dirs)))"

definition total_rows :: "(string \<Rightarrow> directory) \<Rightarrow> int" where
  "total_rows fs =
     sum_list (map (\<lambda>d. snd (count_csvs (fs d))) (filter (\<lambda>d. fs d \<noteq> None) (map snd data_dirs)))"

section \<open>Example inputs\<close>

text \<open>Remote sides: one that fails on its first two attempts, one that always fails.\<close>

definition two_failures :: "json \<Rightarrow> nat \<Rightarrow> outcome" where
  "two_failures body attempt = (if attempt < 2 then Raises ''timeout'' else Succeeds body)"

definition always_fails :: "nat \<Rightarrow> outcome" where
  "always_fails attempt = Raises ''timeout''"

text \<open>The body by which the World Bank reports an error, with status 200.\<close>

definition wb_error_body :: json where
  "wb_error_body = JArr [JObj [(''message'', JStr ''Invalid value'')]]"

text \<open>Networks: one on which every request times out, one that answers every request with the same body.\<close>

definition dead_network :: "string \<Rightarrow> nat \<Rightarrow> outcome" where
  "dead_network url attempt = Raises ''timeout''"

definition serves :: "json \<Rightarrow> string \<Rightarrow> nat \<Rightarrow> outcome" where
  "serves body url attempt = Succeeds body"

text \<open>An IMF answer for indicator \<^verbatim>\<open>NGDPD\<close> in which the year 2001 carries \<^verbatim>\<open>null\<close>.\<close>

definition imf_body_with_null :: json where
  "imf_body_with_null =
     JObj [(''values'', JObj [(''NGDPD'', JObj [(''ECU'', JObj [(''2001'', JNull), (''2002'', JNum 7)])])])]"

text \<open>The same observations as the World Bank sends them.\<close>

definition wb_body_with_null :: json where
  "wb_body_with_null =
     JArr [JObj [(''page'', JNum 1)],
           JArr [JObj [(''date'', JStr ''2001''), (''value'', JNull)],
                 JObj [(''date'', JStr ''2002''), (''value'', JNum 7)]]]"


text \<open>
  Vocabulary for the statements about panels: the value observed for an indicator in a
  period, if any (a stored \<^verbatim>\<open>None\<close> is no observation), and the column under which the
  World Bank panel files a code.
\<close>

definition observation :: "(string \<times> series) list \<Rightarrow> string \<Rightarrow> string \<Rightarrow> real option" where
  "observation all_data code year =
     (case map_of all_data code of
        None \<Rightarrow> None
      | Some year_dict \<Rightarrow> (case map_of year_dict year of None \<Rightarrow> None | Some v \<Rightarrow> v))"

definition wb_column :: "(string \<times> wb_info) list \<Rightarrow> string \<Rightarrow> string" where
  "wb_column indicator_info code =
     (case map_of indicator_info code of
        None \<Rightarrow> []
      | Some info \<Rightarrow> column_name (info_name info) code)"

text \<open>
  Two indicators whose labels sort against their codes; the first has a stored \<^verbatim>\<open>None\<close>
  for 2001, the second a true zero for 2002.
\<close>

definition example_data :: "(string \<times> series) list" where
  "example_data =
     [(''A'', [(''2003'', Some 1), (''2001'', None)]),
      (''B'', [(''2002'', Some 0)])]"

definition example_indicators :: "(string \<times> string) list" where
  "example_indicators = [(''A'', ''Zinc''), (''B'', ''Aluminium'')]"

definition example_info :: "(string \<times> wb_info) list" where
  "example_info =
     [(''A'', Info ''A'' ''Zinc'' [] []),
      (''B'', Info ''B'' ''Aluminium'' [] [])]"


text \<open>
  Output directories after a run in which the World Bank extractor timed out before it
  created anything: the IMF directory holds a panel, a metadata file, an entry that
  cannot be read and an empty file; the World Bank directory is absent.
\<close>

definition example_fs :: "string \<Rightarrow> directory" where
  "example_fs path =
     (if path = ''ecuador_data/imf'' then Some [Some 4, Some 1, None, Some 0]
      else if path = ''ecuador_data/fred'' then Some [Some 10]
      else None)"

definition example_results :: "(string \<times> string \<times> real) list" where
  "example_results =
     [(''IMF DataMapper'', ''OK'', 12),
      (''World Bank (WDI)'', ''TIMEOUT'', 1800),
      (''FRED'', ''ERROR'', 3)]"

text \<open>The series of the specification's example, with observations in 2001, 2003 and 2010.\<close>

definition example_series :: series where
  "example_series = [(''2003'', Some 2), (''2001'', Some 1), (''2010'', Some 3)]"


text \<open>
  Vocabulary for the statement about the crawler: the series that a tree lists, with the
  label each listing gives (the title, or the identifier when there is none), in the
  order of the depth-first walk; and the trees in which every listed series carries its
  \<^verbatim>\<open>id\<close> and every listed child its \<^verbatim>\<open>name\<close> and \<^verbatim>\<open>id\<close>.
\<close>

fun listed :: "series_entry list \<Rightarrow> (string \<times> string) list" where
  "listed [] = []"
| "listed (SeriesEntry None t # rest) = listed rest"
| "listed (SeriesEntry (Some i) t # rest) = (i, case t of None \<Rightarrow> i | Some l \<Rightarrow> l) # listed rest"

function (sequential)
  tree_series :: "category \<Rightarrow> (string \<times> string) list" and
  children_series :: "child list \<Rightarrow> (string \<times> string) list"
where
  "tree_series (Category sr cr) =
     (case sr of None \<Rightarrow> [] | Some ss \<Rightarrow> listed ss) @
     (case cr of None \<Rightarrow> [] | Some children \<Rightarrow> children_series children)"
| "children_series [] = []"
| "children_series (Child nm ci sub # rest) = tree_series sub @ children_series rest"
  by pat_completeness auto
termination
  by (relation "measure (\<lambda>x. case x of Inl c \<Rightarrow> size c | Inr cs \<Rightarrow> size_list size cs)") auto

function (sequential)
  well_formed :: "category \<Rightarrow> bool" and
  well_formed_children :: "child list \<Rightarrow> bool"
where
  "well_formed (Category sr cr) =
     ((case sr of None \<Rightarrow> True | Some ss \<Rightarrow> list_all (\<lambda>e. entry_id e \<noteq> None) ss) \<and>
      (case cr of None \<Rightarrow> True | Some children \<Rightarrow> well_formed_children children))"
| "well_formed_children [] = True"
| "well_formed_children (Child nm ci sub # rest) =
     (nm \<noteq> None \<and> ci \<noteq> None \<and> well_formed sub \<and> well_formed_children rest)"
  by pat_completeness auto
termination
  by (relation "measure (\<lambda>x. case x of Inl c \<Rightarrow> size c | Inr cs \<Rightarrow> size_list size cs)") auto

text \<open>
  A tree of depth two with three series, one of them listed at the root and again in a
  child category under another title; the request for the second child's content fails.
\<close>

definition example_tree :: category where
  "example_tree =
     Category
       (Some [SeriesEntry (Some ''ECUNGDPD'') (Some ''GDP''), SeriesEntry (Some ''ECUPOP'') None])
       (Some [Child (Some ''Prices'') (Some 1)
                (Category
                   (Some [SeriesEntry (Some ''ECUNGDPD'') (Some ''GDP, revised''),
                          SeriesEntry (Some ''ECUCPI'') (Some ''CPI'')])
                   (Some [])),
              Child (Some ''Trade'') (Some 2) (Category None None)])"


text \<open>
  Two indicators whose column names coincide: the code of the first and the label of the
  second both contain an opening bracket, and both columns are named \<^verbatim>\<open>L [a [b]\<close>.
\<close>

definition colliding_data :: "(string \<times> series) list" where
  "colliding_data =
     [(''a [b'', [(''1'', Some 1)]),
      (''b'', [(''2'', Some 5)])]"

definition colliding_indicators :: "(string \<times> string) list" where
  "colliding_indicators = [(''a [b'', ''L''), (''b'', ''L [a'')]"

definition colliding_info :: "(string \<times> wb_info) list" where
  "colliding_info =
     [(''a [b'', Info ''a [b'' ''L'' [] []),
      (''b'', Info ''b'' ''L [a'' [] [])]"


section \<open>The retry loop\<close>

text \<open>
  Two facts about the loop from any attempt \<open>i\<close> on: when the attempts before \<open>k\<close> raise
  and attempt \<open>k\<close> succeeds, and when every attempt raises.
\<close>

lemma imf_loop_success_at:
  assumes "i \<le> k" "k < nat retries"
    and "\<And>a. i \<le> a \<Longrightarrow> a < k \<Longrightarrow> \<exists>e. fetch a = Raises e"
    and "fetch k = Succeeds v"
  shows "get_json_imf_loop fetch retries [i ..< nat retries] evs
           = (v, evs @ map (\<lambda>a. Sleep (2 ^ a)) [i ..< k])"
  using assms
proof (induction "k - i" arbitrary: i evs)
  case 0
  then have "i = k" by simp
  with 0 show ?case by (simp add: upt_conv_Cons)
next
  case (Suc d)
  then have lt: "i < k" by simp
  then obtain e where e: "fetch i = Raises e" using Suc.prems(3)[of i] by auto
  have step: "int i < retries - 1" using lt Suc.prems(2) by linarith
  have "get_json_imf_loop fetch retries [Suc i ..< nat retries] (evs @ [Sleep (2 ^ i)])
          = (v, (evs @ [Sleep (2 ^ i)]) @ map (\<lambda>a. Sleep (2 ^ a)) [Suc i ..< k])"
    using Suc.hyps(2) Suc.prems lt by (intro Suc.hyps(1)) auto
  moreover have "i < nat retries" using lt Suc.prems(2) by simp
  ultimately show ?case using e step lt by (simp add: upt_conv_Cons)
qed

lemma imf_loop_all_fail:
  assumes "i < nat retries"
    and "\<And>a. i \<le> a \<Longrightarrow> a < nat retries \<Longrightarrow> \<exists>e. fetch a = Raises e"
  shows "\<exists>e. get_json_imf_loop fetch retries [i ..< nat retries] evs
           = (JNull, evs @ map (\<lambda>a. Sleep (2 ^ a)) [i ..< nat retries - 1] @ [Print (''  FAILED: '' @ e)])"
  using assms
proof (induction "nat retries - i" arbitrary: i evs)
  case 0
  then show ?case by simp
next
  case (Suc d)
  obtain e where e: "fetch i = Raises e" using Suc.prems(2)[of i] Suc.prems(1) by auto
  show ?case
  proof (cases "Suc i < nat retries")
    case True
    then have step: "int i < retries - 1" by linarith
    have d: "d = nat retries - Suc i" using Suc.hyps(2) by simp
    have "\<exists>e'. get_json_imf_loop fetch retries [Suc i ..< nat retries] (evs @ [Sleep (2 ^ i)])
          = (JNull, (evs @ [Sleep (2 ^ i)]) @ map (\<lambda>a. Sleep (2 ^ a)) [Suc i ..< nat retries - 1] @ [Print (''  FAILED: '' @ e')])"
      using d True Suc.prems(2) by (intro Suc.hyps(1)) auto
    then obtain e' where "get_json_imf_loop fetch retries [Suc i ..< nat retries] (evs @ [Sleep (2 ^ i)])
          = (JNull, (evs @ [Sleep (2 ^ i)]) @ map (\<lambda>a. Sleep (2 ^ a)) [Suc i ..< nat retries - 1] @ [Print (''  FAILED: '' @ e')])"
      by blast
    moreover have "i < nat retries - 1" using True by simp
    ultimately show ?thesis using e step Suc.prems(1) by (simp add: upt_conv_Cons)
  next
    case False
    then have last: "nat retries = Suc i" using Suc.prems(1) by simp
    then have "\<not> int i < retries - 1" by linarith
    then show ?thesis using e last by (simp add: upt_conv_Cons)
  qed
qed



lemma wb_loop_success_at:
  assumes "i \<le> k" "k < nat retries"
    and "\<And>a. i \<le> a \<Longrightarrow> a < k \<Longrightarrow> \<exists>e. fetch a = Raises e"
    and "fetch k = Succeeds v"
  shows "get_json_wb_loop fetch retries [i ..< nat retries] evs
           = (if is_pair_list v then v else JNull, evs @ map (\<lambda>a. Sleep (2 ^ a)) [i ..< k])"
  using assms
proof (induction "k - i" arbitrary: i evs)
  case 0
  then have "i = k" by simp
  with 0 show ?case by (simp add: upt_conv_Cons)
next
  case (Suc d)
  then have lt: "i < k" by simp
  then obtain e where e: "fetch i = Raises e" using Suc.prems(3)[of i] by auto
  have step: "int i < retries - 1" using lt Suc.prems(2) by linarith
  have "get_json_wb_loop fetch retries [Suc i ..< nat retries] (evs @ [Sleep (2 ^ i)])
          = (if is_pair_list v then v else JNull, (evs @ [Sleep (2 ^ i)]) @ map (\<lambda>a. Sleep (2 ^ a)) [Suc i ..< k])"
    using Suc.hyps(2) Suc.prems lt by (intro Suc.hyps(1)) auto
  moreover have "i < nat retries" using lt Suc.prems(2) by simp
  ultimately show ?case using e step lt by (simp add: upt_conv_Cons)
qed

lemma wb_loop_all_fail:
  assumes "i < nat retries"
    and "\<And>a. i \<le> a \<Longrightarrow> a < nat retries \<Longrightarrow> \<exists>e. fetch a = Raises e"
  shows "\<exists>e. get_json_wb_loop fetch retries [i ..< nat retries] evs
           = (JNull, evs @ map (\<lambda>a. Sleep (2 ^ a)) [i ..< nat retries - 1] @ [Print (''  FAILED: '' @ e)])"
  using assms
proof (induction "nat retries - i" arbitrary: i evs)
  case 0
  then show ?case by simp
next
  case (Suc d)
  obtain e where e: "fetch i = Raises e" using Suc.prems(2)[of i] Suc.prems(1) by auto
  show ?case
  proof (cases "Suc i < nat retries")
    case True
    then have step: "int i < retries - 1" by linarith
    have d: "d = nat retries - Suc i" using Suc.hyps(2) by simp
    have "\<exists>e'. get_json_wb_loop fetch retries [Suc i ..< nat retries] (evs @ [Sleep (2 ^ i)])
          = (JNull, (evs @ [Sleep (2 ^ i)]) @ map (\<lambda>a. Sleep (2 ^ a)) [Suc i ..< nat retries - 1] @ [Print (''  FAILED: '' @ e')])"
      using d True Suc.prems(2) by (intro Suc.hyps(1)) auto
    then obtain e' where "get_json_wb_loop fetch retries [Suc i ..< nat retries] (evs @ [Sleep (2 ^ i)])
          = (JNull, (evs @ [Sleep (2 ^ i)]) @ map (\<lambda>a. Sleep (2 ^ a)) [Suc i ..< nat retries - 1] @ [Print (''  FAILED: '' @ e')])"
      by blast
    moreover have "i < nat retries - 1" using True by simp
    ultimately show ?thesis using e step Suc.prems(1) by (simp add: upt_conv_Cons)
  next
    case False
    then have last: "nat retries = Suc i" using Suc.prems(1) by simp
    then have "\<not> int i < retries - 1" by linarith
    then show ?thesis using e last by (simp add: upt_conv_Cons)
  qed
qed

text \<open>
  C3 (as amended). For \<^verbatim>\<open>get_json\<close> of both extractors: when the first \<open>k\<close> attempts raise
  and the next one succeeds, with \<open>k\<close> below \<open>retries\<close> (two failures then a success need
  \<open>retries \<ge> 3\<close>), the call has slept \<open>1, 2, \<dots>, 2^(k-1)\<close> seconds, has printed no warning,
  and returns the parsed body; the World Bank version returns it only when it is a list of
  two elements, and \<^verbatim>\<open>None\<close> otherwise. When all \<open>retries \<ge> 1\<close> attempts raise, the call
  returns \<^verbatim>\<open>None\<close> after sleeping \<open>1, 2, \<dots>, 2^(retries-2)\<close> seconds between the attempts
  and printing exactly one warning, after the last one.
\<close>

theorem get_json_retry_backoff:
  "(k < nat retries \<and> (\<forall>a<k. \<exists>e. fetch a = Raises e) \<and> fetch k = Succeeds v \<longrightarrow>
      get_json_imf fetch retries = (v, map (\<lambda>a. Sleep (2 ^ a)) [0 ..< k]) \<and>
      get_json_wb fetch retries
        = (if is_pair_list v then v else JNull, map (\<lambda>a. Sleep (2 ^ a)) [0 ..< k]))
   \<and> (1 \<le> retries \<and> (\<forall>a<nat retries. \<exists>e. fetch a = Raises e) \<longrightarrow>
      (\<exists>e. get_json_imf fetch retries
             = (JNull, map (\<lambda>a. Sleep (2 ^ a)) [0 ..< nat retries - 1] @ [Print (''  FAILED: '' @ e)])) \<and>
      (\<exists>e. get_json_wb fetch retries
             = (JNull, map (\<lambda>a. Sleep (2 ^ a)) [0 ..< nat retries - 1] @ [Print (''  FAILED: '' @ e)])))"
proof (intro conjI impI)
  assume h: "k < nat retries \<and> (\<forall>a<k. \<exists>e. fetch a = Raises e) \<and> fetch k = Succeeds v"
  show "get_json_imf fetch retries = (v, map (\<lambda>a. Sleep (2 ^ a)) [0 ..< k])"
    unfolding get_json_imf_def using imf_loop_success_at[of 0 k retries fetch v "[]"] h by simp
  show "get_json_wb fetch retries
        = (if is_pair_list v then v else JNull, map (\<lambda>a. Sleep (2 ^ a)) [0 ..< k])"
    unfolding get_json_wb_def using wb_loop_success_at[of 0 k retries fetch v "[]"] h by simp
next
  assume h: "1 \<le> retries \<and> (\<forall>a<nat retries. \<exists>e. fetch a = Raises e)"
  show "\<exists>e. get_json_imf fetch retries
             = (JNull, map (\<lambda>a. Sleep (2 ^ a)) [0 ..< nat retries - 1] @ [Print (''  FAILED: '' @ e)])"
    unfolding get_json_imf_def using imf_loop_all_fail[of 0 retries fetch "[]"] h by simp
  show "\<exists>e. get_json_wb fetch retries
             = (JNull, map (\<lambda>a. Sleep (2 ^ a)) [0 ..< nat retries - 1] @ [Print (''  FAILED: '' @ e)])"
    unfolding get_json_wb_def using wb_loop_all_fail[of 0 retries fetch "[]"] h by simp
qed

theorem get_json_retry_backoff_witness:
  "(2 < nat 3 \<and> two_failures (JNum 7) 0 = Raises ''timeout'' \<and>
      two_failures (JNum 7) 1 = Raises ''timeout'' \<and>
      two_failures (JNum 7) 2 = Succeeds (JNum 7)) \<and>
   get_json_imf (two_failures (JNum 7)) 3 = (JNum 7, [Sleep 1, Sleep 2]) \<and>
   get_json_wb (two_failures (JArr [JNull, JArr []])) 3 = (JArr [JNull, JArr []], [Sleep 1, Sleep 2]) \<and>
   ((1::int) \<le> 4 \<and> always_fails 0 = Raises ''timeout'' \<and> always_fails 1 = Raises ''timeout'' \<and>
      always_fails 2 = Raises ''timeout'' \<and> always_fails 3 = Raises ''timeout'') \<and>
   fst (get_json_imf always_fails 4) = JNull \<and>
   length (warnings (snd (get_json_imf always_fails 4))) = 1 \<and>
   delays (snd (get_json_imf always_fails 4)) = [1, 2, 4] \<and>
   fst (get_json_wb always_fails 4) = JNull \<and>
   length (warnings (snd (get_json_wb always_fails 4))) = 1 \<and>
   delays (snd (get_json_wb always_fails 4)) = [1, 2, 4]"
proof -
  have a: "(2::nat) < nat 3 \<and> (\<forall>a<2. \<exists>e. two_failures b a = Raises e) \<and> two_failures b 2 = Succeeds b" for b
    by (simp add: two_failures_def)
  have b: "(1::int) \<le> 4 \<and> (\<forall>a<nat 4. \<exists>e. always_fails a = Raises e)"
    by (simp add: always_fails_def)
  have up2: "[0 ..< (2::nat)] = [0, 1]"
    by (simp add: upt_rec)
  from get_json_retry_backoff[of 2 3 "two_failures (JNum 7)" "JNum 7"] a[of "JNum 7"]
  have 1: "get_json_imf (two_failures (JNum 7)) 3 = (JNum 7, [Sleep 1, Sleep 2])"
    by (simp add: up2)
  from get_json_retry_backoff[of 2 3 "two_failures (JArr [JNull, JArr []])" "JArr [JNull, JArr []]"]
    a[of "JArr [JNull, JArr []]"]
  have 2: "get_json_wb (two_failures (JArr [JNull, JArr []])) 3 = (JArr [JNull, JArr []], [Sleep 1, Sleep 2])"
    by (simp add: up2)
  from get_json_retry_backoff[of 0 4 always_fails JNull] b
  obtain e1 e2 where
    e1: "get_json_imf always_fails 4
           = (JNull, map (\<lambda>a. Sleep (2 ^ a)) [0 ..< nat 4 - 1] @ [Print (''  FAILED: '' @ e1)])" and
    e2: "get_json_wb always_fails 4
           = (JNull, map (\<lambda>a. Sleep (2 ^ a)) [0 ..< nat 4 - 1] @ [Print (''  FAILED: '' @ e2)])"
    by blast
  have 3: "fst (get_json_imf always_fails 4) = JNull \<and>
           length (warnings (snd (get_json_imf always_fails 4))) = 1 \<and>
           delays (snd (get_json_imf always_fails 4)) = [1, 2, 4]"
    unfolding e1 by (simp add: warnings_def upt_rec)
  have 4: "fst (get_json_wb always_fails 4) = JNull \<and>
           length (warnings (snd (get_json_wb always_fails 4))) = 1 \<and>
           delays (snd (get_json_wb always_fails 4)) = [1, 2, 4]"
    unfolding e2 by (simp add: warnings_def upt_rec)
  show ?thesis using 1 2 3 4 by (simp add: two_failures_def always_fails_def)
qed

text \<open>
  C3 as stated fails twice. With \<open>retries = 2\<close> the third attempt is never made, so a
  remote side that would succeed on it yields \<^verbatim>\<open>None\<close>. And the World Bank version
  turns a successfully parsed body that is not a two-element list into \<^verbatim>\<open>None\<close>, silently.
\<close>

theorem get_json_retry_counterexample:
  "(1::int) \<le> 2 \<and>
   two_failures (JNum 7) 0 = Raises ''timeout'' \<and>
   two_failures (JNum 7) 1 = Raises ''timeout'' \<and>
   two_failures (JNum 7) 2 = Succeeds (JNum 7) \<and>
   fst (get_json_imf (two_failures (JNum 7)) 2) = JNull \<and>
   two_failures wb_error_body 2 = Succeeds wb_error_body \<and>
   fst (get_json_wb (two_failures wb_error_body) 3) = JNull \<and>
   warnings (snd (get_json_wb (two_failures wb_error_body) 3)) = []"
  by (simp add: two_failures_def wb_error_body_def get_json_imf_def get_json_wb_def warnings_def upt_rec)

section \<open>Outcomes of the download loops\<close>

text \<open>
  When \<^verbatim>\<open>get_json\<close> gives up and returns \<^verbatim>\<open>None\<close>, both downloaders return an empty
  dict, which is what they also return for a country without observations. The IMF loop
  then takes its \<^verbatim>\<open>elif result is not None\<close> branch, and the World Bank loop has no
  branch that touches \<^verbatim>\<open>failed\<close> at all.
\<close>

lemma fetch_indicator_data_imf_failure:
  assumes "fst (get_json_imf (net (BASE @ ''/'' @ code @ ''/'' @ COUNTRY)) 3) = JNull"
  shows "fetch_indicator_data_imf net code = Inr (JObj [])"
  using assms by (simp add: fetch_indicator_data_imf_def)

lemma imf_step_failure_counts_empty:
  assumes "fst (get_json_imf (net (BASE @ ''/'' @ code @ ''/'' @ COUNTRY)) 3) = JNull"
  shows "imf_step net (code, label) st = Inr (st\<lparr>st_empty := st_empty st + 1\<rparr>)"
  using fetch_indicator_data_imf_failure[of net code] assms by (simp add: imf_step_def)

lemma fetch_indicator_data_wb_failure:
  assumes "fst (get_json_wb (net (API_BASE @ ''/country/'' @ COUNTRY @ ''/indicator/'' @ code)) 3) = JNull"
  shows "fetch_indicator_data_wb net code = Inr []"
  using assms by (simp add: fetch_indicator_data_wb_def)

lemma wb_step_failed_unchanged:
  "wb_step net ind st = Inr st' \<Longrightarrow> st_failed st' = st_failed st"
  by (auto simp: wb_step_def Let_def split: sum.splits if_splits)

lemma wb_loop_failed_unchanged:
  "wb_loop net inds st = Inr st' \<Longrightarrow> st_failed st' = st_failed st"
proof (induction inds arbitrary: st)
  case Nil
  then show ?case by simp
next
  case (Cons ind inds)
  then obtain st1 where s: "wb_step net ind st = Inr st1" and r: "wb_loop net inds st1 = Inr st'"
    by (auto split: sum.splits)
  from Cons.IH[OF r] wb_step_failed_unchanged[OF s] show ?case by simp
qed

lemma wb_main_loop_never_failed:
  "wb_main_loop net all_indicators = Inr st \<Longrightarrow> st_failed st = 0"
  unfolding wb_main_loop_def by (drule wb_loop_failed_unchanged) simp

text \<open>
  What the loops hand to the later steps: the World Bank loop stores a series and its
  descriptive fields under the same code at the same time, and \<^verbatim>\<open>kept\<close> holds only codes
  that have a series.
\<close>

lemma wb_step_same_keys:
  assumes "wb_step net ind st = Inr st'"
    and "map fst (st_all_data st) = map fst (st_indicator_info st)"
  shows "map fst (st_all_data st') = map fst (st_indicator_info st')"
  using assms by (auto simp: wb_step_def Let_def update_keys split: sum.splits if_splits)

lemma wb_loop_same_keys:
  "wb_loop net inds st = Inr st' \<Longrightarrow>
   map fst (st_all_data st) = map fst (st_indicator_info st) \<Longrightarrow>
   map fst (st_all_data st') = map fst (st_indicator_info st')"
proof (induction inds arbitrary: st)
  case Nil
  then show ?case by simp
next
  case (Cons ind inds)
  from Cons.prems(1) obtain st1 where s: "wb_step net ind st = Inr st1"
    and r: "wb_loop net inds st1 = Inr st'"
    by (auto split: sum.splits)
  from wb_step_same_keys[OF s Cons.prems(2)] have "map fst (st_all_data st1) = map fst (st_indicator_info st1)" .
  with r show ?case by (rule Cons.IH)
qed

lemma wb_main_loop_same_keys:
  "wb_main_loop net all_indicators = Inr st \<Longrightarrow>
   map fst (st_all_data st) = map fst (st_indicator_info st)"
  unfolding wb_main_loop_def by (drule wb_loop_same_keys) simp_all

lemma kept_codes_have_data: "fst ` set (kept indicators all_data) \<subseteq> fst ` set all_data"
  by (force simp: kept_def)

text \<open>
  C1 (the code departs from it). One indicator, every request timing out: both loops
  finish with \<open>empty = 1\<close> and \<open>failed = 0\<close>, and keep no record of the indicator or of the
  reason. The claim wants the failure counted as failed and reported.
\<close>

theorem failed_request_counted_as_empty:
  "imf_main_loop dead_network [(''NGDPD'', ''GDP, current prices'')]
     = Inr \<lparr>st_all_data = [], st_success = 0, st_empty = 1, st_failed = 0\<rparr> \<and>
   wb_main_loop dead_network [Indicator ''NY.GDP.MKTP.CD'' (Some ''GDP (current US$)'') None []]
     = Inr \<lparr>st_all_data = [], st_success = 0, st_empty = 1, st_failed = 0, st_indicator_info = []\<rparr>"
proof -
  have i: "fst (get_json_imf (dead_network url) 3) = JNull" for url
    by (simp add: get_json_imf_def dead_network_def upt_rec)
  have w: "fst (get_json_wb (dead_network url) 3) = JNull" for url
    by (simp add: get_json_wb_def dead_network_def upt_rec)
  show ?thesis
    using imf_step_failure_counts_empty[of dead_network "''NGDPD''"] i
      fetch_indicator_data_wb_failure[of dead_network "''NY.GDP.MKTP.CD''"] w
    by (simp add: imf_main_loop_def wb_main_loop_def wb_step_def)
qed


section \<open>Values of a downloaded series\<close>

text \<open>
  The World Bank downloader stores a record only under \<^verbatim>\<open>value is not None\<close>, so no
  stored value is \<^verbatim>\<open>None\<close>. The IMF downloader returns the provider's inner object as
  it is.
\<close>

lemma dict_put_values:
  "v \<noteq> JNull \<Longrightarrow> JNull \<notin> snd ` set d \<Longrightarrow> JNull \<notin> snd ` set (dict_put k v d)"
  by (induction d) (force split: if_splits)+

lemma wb_records_values:
  "wb_records recs result = Inr d \<Longrightarrow> JNull \<notin> snd ` set result \<Longrightarrow> JNull \<notin> snd ` set d"
proof (induction recs arbitrary: result)
  case Nil
  then show ?case by simp
next
  case (Cons r recs)
  from Cons.prems(1) obtain year val where
    y: "py_get r ''date'' JNull = Inr year" and v: "py_get r ''value'' JNull = Inr val"
    by (auto split: sum.splits)
  show ?case
  proof (cases "truthy year \<and> val \<noteq> JNull")
    case True
    with Cons.prems(1) y v have "wb_records recs (dict_put year val result) = Inr d"
      by (auto split: if_splits)
    moreover have "JNull \<notin> snd ` set (dict_put year val result)"
      using True Cons.prems(2) by (intro dict_put_values) auto
    ultimately show ?thesis by (rule Cons.IH)
  next
    case False
    with Cons.prems(1) y v have "wb_records recs result = Inr d" by auto
    then show ?thesis using Cons.prems(2) by (rule Cons.IH)
  qed
qed

lemma fetch_indicator_data_wb_values:
  assumes "fetch_indicator_data_wb net indicator_id = Inr d"
  shows "JNull \<notin> snd ` set d"
proof (cases "d = []")
  case True
  then show ?thesis by simp
next
  case False
  with assms obtain recs where "wb_records recs [] = Inr d"
    by (auto simp: fetch_indicator_data_wb_def Let_def split: if_splits sum.splits)
  then show ?thesis using wb_records_values[of recs "[]" d] by simp
qed

text \<open>
  C2 (the code departs from it). For an answer in which the year 2001 carries \<^verbatim>\<open>null\<close>,
  the IMF downloader returns a mapping that still holds 2001 with the value \<^verbatim>\<open>None\<close>;
  the World Bank downloader, given the same observations, returns 2002 alone.
\<close>

theorem imf_series_keeps_null_values:
  "fetch_indicator_data_imf (serves imf_body_with_null) ''NGDPD''
     = Inr (JObj [(''2001'', JNull), (''2002'', JNum 7)]) \<and>
   fetch_indicator_data_wb (serves wb_body_with_null) ''NY.GDP.MKTP.CD''
     = Inr [(JStr ''2002'', JNum 7)]"
  by (simp add: fetch_indicator_data_imf_def fetch_indicator_data_wb_def serves_def
      imf_body_with_null_def wb_body_with_null_def get_json_imf_def get_json_wb_def
      COUNTRY_def upt_rec py_eq_def)

section \<open>Panels\<close>

subsection \<open>A row is a fold of updates\<close>

text \<open>
  Storing under a key that the row has keeps the position of the key; storing under a new
  key appends it. The keys of the finished row therefore do not depend on the values.
\<close>

lemma fold_update_keys:
  "map fst (fold (\<lambda>x row. AList.update (key x) (val x) row) xs row0)
     = fold (\<lambda>x ks. if key x \<in> set ks then ks else ks @ [key x]) xs (map fst row0)"
  by (induction xs arbitrary: row0) (simp_all add: update_keys)

lemma fold_new_keys:
  "distinct (map key xs) \<Longrightarrow> key ` set xs \<inter> set ks = {} \<Longrightarrow>
   fold (\<lambda>x ks. if key x \<in> set ks then ks else ks @ [key x]) xs ks = ks @ map key xs"
  by (induction xs arbitrary: ks) auto

lemma fold_update_dom:
  "fst ` set (fold (\<lambda>x row. AList.update (key x) (val x) row) xs row0)
     = fst ` set row0 \<union> key ` set xs"
  by (induction xs arbitrary: row0) (auto simp: dom_update)

lemma fold_update_other:
  "k \<notin> key ` set xs \<Longrightarrow>
   map_of (fold (\<lambda>x row. AList.update (key x) (val x) row) xs row0) k = map_of row0 k"
  by (induction xs arbitrary: row0) (auto simp: update_conv')

lemma fold_update_lookup:
  "distinct (map key xs) \<Longrightarrow> x \<in> set xs \<Longrightarrow>
   map_of (fold (\<lambda>x row. AList.update (key x) (val x) row) xs row0) (key x) = Some (val x)"
proof (induction xs arbitrary: row0)
  case Nil
  then show ?case by simp
next
  case (Cons y ys)
  show ?case
  proof (cases "x = y")
    case True
    with Cons.prems have "key x \<notin> key ` set ys" by auto
    then show ?thesis using True by (simp add: fold_update_other update_conv')
  next
    case False
    with Cons show ?thesis by auto
  qed
qed

subsection \<open>Rows of the IMF panel\<close>

lemma column_name_not_Year: "column_name label code \<noteq> ''Year''"
proof
  assume "column_name label code = ''Year''"
  then have "last (column_name label code) = last ''Year''" by simp
  then show False by (simp add: column_name_def)
qed

lemma build_row_fold:
  "build_row all_data indicators year =
     fold (\<lambda>x row. AList.update (column_name (snd x) (fst x)) (render (observation all_data (fst x) year)) row)
       (sort_key snd indicators) [(''Year'', Text year)]"
  unfolding build_row_def observation_def series_get_def
  by (rule arg_cong[where f = "\<lambda>f. fold f _ _"]) (auto simp: fun_eq_iff split: option.splits)

lemma build_row_Year: "map_of (build_row all_data indicators year) ''Year'' = Some (Text year)"
  unfolding build_row_fold
  by (subst fold_update_other) (auto simp: column_name_not_Year[symmetric])

lemma build_row_keys:
  "map fst (build_row all_data indicators year)
     = fold (\<lambda>x ks. if column_name (snd x) (fst x) \<in> set ks then ks else ks @ [column_name (snd x) (fst x)])
         (sort_key snd indicators) [''Year'']"
  unfolding build_row_fold by (simp add: fold_update_keys)

lemma build_row_dom:
  "fst ` set (build_row all_data indicators year)
     = insert ''Year'' ((\<lambda>(code, label). column_name label code) ` set indicators)"
  unfolding build_row_fold by (force simp: fold_update_dom)

lemma fold_union_years:
  "fold (\<lambda>x acc. acc \<union> f x) xs A = A \<union> (\<Union>x\<in>set xs. f x)"
  by (induction xs arbitrary: A) auto

lemma all_years_eq: "all_years all_data = (\<Union>d\<in>snd ` set all_data. fst ` set d)"
proof -
  have "all_years all_data = fold (\<lambda>x acc. acc \<union> fst ` set (snd x)) all_data {}"
    unfolding all_years_def by (rule arg_cong[where f = "\<lambda>f. fold f _ _"]) (auto simp: fun_eq_iff)
  then show ?thesis by (simp add: fold_union_years)
qed

lemma wb_all_years_eq: "wb_all_years all_data = (\<Union>d\<in>snd ` set all_data. fst ` set d)"
proof -
  have "wb_all_years all_data = fold (\<lambda>x acc. acc \<union> fst ` set x) (map snd all_data) {}"
    unfolding wb_all_years_def by simp
  then show ?thesis by (simp add: fold_union_years)
qed

subsection \<open>The World Bank loops as folds\<close>

text \<open>
  With every code of \<^verbatim>\<open>all_data\<close> present in \<^verbatim>\<open>indicator_info\<close> neither subscript raises,
  and the loops compute the same fold as the IMF builder, over the sorted codes.
\<close>

lemma wb_row_loop_fold:
  assumes "set codes \<subseteq> fst ` set all_data" "fst ` set all_data \<subseteq> fst ` set indicator_info"
  shows "wb_row_loop all_data indicator_info year codes row
           = Inr (fold (\<lambda>code row. AList.update (wb_column indicator_info code)
                                      (render (observation all_data code year)) row) codes row)"
  using assms(1)
proof (induction codes arbitrary: row)
  case Nil
  then show ?case by simp
next
  case (Cons code codes)
  then have "code \<in> fst ` set all_data" by simp
  then obtain d where d: "map_of all_data code = Some d"
    by (metis domD dom_map_of_conv_image_fst)
  have "code \<in> fst ` set indicator_info" using \<open>code \<in> fst ` set all_data\<close> assms(2) by blast
  then obtain info where i: "map_of indicator_info code = Some info"
    by (metis domD dom_map_of_conv_image_fst)
  have "wb_row_loop all_data indicator_info year (code # codes) row
          = wb_row_loop all_data indicator_info year codes
              (AList.update (wb_column indicator_info code) (render (observation all_data code year)) row)"
    using d i by (simp add: wb_column_def observation_def series_get_def)
  also have "\<dots> = Inr (fold (\<lambda>code row. AList.update (wb_column indicator_info code)
                                      (render (observation all_data code year)) row) codes
              (AList.update (wb_column indicator_info code) (render (observation all_data code year)) row))"
    using Cons.prems by (intro Cons.IH) simp
  finally show ?case by simp
qed

lemma wb_build_row_fold:
  assumes "fst ` set all_data \<subseteq> fst ` set indicator_info"
  shows "wb_build_row all_data indicator_info year
           = Inr (fold (\<lambda>code row. AList.update (wb_column indicator_info code)
                                      (render (observation all_data code year)) row)
                    (sort (map fst all_data)) [(''Year'', Text year)])"
  unfolding wb_build_row_def using assms by (intro wb_row_loop_fold) auto

lemma wb_rows_loop_map:
  assumes "fst ` set all_data \<subseteq> fst ` set indicator_info"
  shows "wb_rows_loop all_data indicator_info years rows
           = Inr (rows @ map (\<lambda>year. fold (\<lambda>code row. AList.update (wb_column indicator_info code)
                                      (render (observation all_data code year)) row)
                    (sort (map fst all_data)) [(''Year'', Text year)]) years)"
  by (induction years arbitrary: rows) (simp_all add: wb_build_row_fold[OF assms])

lemma wb_build_panel_map:
  assumes "fst ` set all_data \<subseteq> fst ` set indicator_info"
  shows "wb_build_panel all_data indicator_info
           = Inr (map (\<lambda>year. fold (\<lambda>code row. AList.update (wb_column indicator_info code)
                                      (render (observation all_data code year)) row)
                    (sort (map fst all_data)) [(''Year'', Text year)])
                  (sorted_list_of_set (\<Union>d\<in>snd ` set all_data. fst ` set d)))"
  unfolding wb_build_panel_def by (simp add: wb_rows_loop_map[OF assms] wb_all_years_eq)

lemma wb_column_not_Year:
  "code \<in> fst ` set indicator_info \<Longrightarrow> wb_column indicator_info code \<noteq> ''Year''"
proof -
  assume "code \<in> fst ` set indicator_info"
  then obtain info where "map_of indicator_info code = Some info"
    by (metis domD dom_map_of_conv_image_fst)
  then show ?thesis by (simp add: wb_column_def column_name_not_Year)
qed

lemma Year_not_wb_column:
  assumes "fst ` set all_data \<subseteq> fst ` set indicator_info"
  shows "''Year'' \<notin> wb_column indicator_info ` set (sort (map fst all_data))"
proof
  assume "''Year'' \<in> wb_column indicator_info ` set (sort (map fst all_data))"
  then obtain code where y: "''Year'' = wb_column indicator_info code"
    and c: "code \<in> set (sort (map fst all_data))"
    by (rule imageE)
  from c have "code \<in> fst ` set all_data" by simp
  with assms have "code \<in> fst ` set indicator_info" by (rule subsetD)
  then have "wb_column indicator_info code \<noteq> ''Year''" by (rule wb_column_not_Year)
  with y show False by simp
qed

lemma wb_row_Year:
  assumes "fst ` set all_data \<subseteq> fst ` set indicator_info"
  shows "map_of (fold (\<lambda>code row. AList.update (wb_column indicator_info code)
                                      (render (observation all_data code year)) row)
                    (sort (map fst all_data)) [(''Year'', Text year)]) ''Year'' = Some (Text year)"
  using fold_update_other[of "''Year''" "wb_column indicator_info" "sort (map fst all_data)"
      "\<lambda>code. render (observation all_data code year)" "[(''Year'', Text year)]",
      OF Year_not_wb_column[OF assms]]
  by simp

text \<open>
  C5. The \<^verbatim>\<open>Year\<close> fields of the rows of the panel, in order, are the periods that occur
  in some series of \<^verbatim>\<open>all_data\<close>, each once, in ascending order: the IMF builder returns
  them for every input, the World Bank builder whenever every code of \<^verbatim>\<open>all_data\<close> has its
  entry in \<^verbatim>\<open>indicator_info\<close> (as the download loop leaves the two dicts), and then it
  does return rows. A series without periods adds nothing, and no other period appears.
\<close>

theorem panel_years_sorted_union:
  "map (\<lambda>row. map_of row ''Year'') (build_panel all_data indicators)
     = map (\<lambda>year. Some (Text year)) (sorted_list_of_set (\<Union>d\<in>snd ` set all_data. fst ` set d)) \<and>
   (fst ` set all_data \<subseteq> fst ` set indicator_info \<longrightarrow>
     (\<exists>rows. wb_build_panel all_data indicator_info = Inr rows \<and>
        map (\<lambda>row. map_of row ''Year'') rows
          = map (\<lambda>year. Some (Text year)) (sorted_list_of_set (\<Union>d\<in>snd ` set all_data. fst ` set d)))) \<and>
   sorted_wrt (<) (sorted_list_of_set (\<Union>d\<in>snd ` set all_data. fst ` set d)) \<and>
   set (sorted_list_of_set (\<Union>d\<in>snd ` set all_data. fst ` set d)) = (\<Union>d\<in>snd ` set all_data. fst ` set d)"
proof (intro conjI impI)
  show "map (\<lambda>row. map_of row ''Year'') (build_panel all_data indicators)
     = map (\<lambda>year. Some (Text year)) (sorted_list_of_set (\<Union>d\<in>snd ` set all_data. fst ` set d))"
    by (simp add: build_panel_def all_years_eq build_row_Year comp_def)
next
  assume sub: "fst ` set all_data \<subseteq> fst ` set indicator_info"
  show "\<exists>rows. wb_build_panel all_data indicator_info = Inr rows \<and>
        map (\<lambda>row. map_of row ''Year'') rows
          = map (\<lambda>year. Some (Text year)) (sorted_list_of_set (\<Union>d\<in>snd ` set all_data. fst ` set d))"
    by (simp add: wb_build_panel_map[OF sub] wb_row_Year[OF sub] comp_def)
next
  show "sorted_wrt (<) (sorted_list_of_set (\<Union>d\<in>snd ` set all_data. fst ` set d))"
    by (rule strict_sorted_list_of_set)
next
  show "set (sorted_list_of_set (\<Union>d\<in>snd ` set all_data. fst ` set d)) = (\<Union>d\<in>snd ` set all_data. fst ` set d)"
    by (intro set_sorted_list_of_set) simp
qed

lemma render_empty_iff: "render v = Text [] \<longleftrightarrow> v = None"
  by (cases v) simp_all

lemma build_panel_rowE:
  assumes "row \<in> set (build_panel all_data indicators)"
  obtains year where "row = build_row all_data indicators year"
  using assms unfolding build_panel_def by auto

lemma case_prod_column: "(\<lambda>(code, label). column_name label code) = (\<lambda>x. column_name (snd x) (fst x))"
  by (simp add: fun_eq_iff)

lemma distinct_map_sort_key: "distinct (map f (sort_key g xs)) = distinct (map f xs)"
  by (simp add: distinct_map)

lemma build_row_cell:
  assumes "distinct (map (\<lambda>(code, label). column_name label code) indicators)"
    and "(code, label) \<in> set indicators"
  shows "map_of (build_row all_data indicators year) (column_name label code)
           = Some (render (observation all_data code year))"
proof -
  have d: "distinct (map (\<lambda>x. column_name (snd x) (fst x)) (sort_key snd indicators))"
    using assms(1) by (simp add: distinct_map_sort_key case_prod_column)
  have m: "(code, label) \<in> set (sort_key snd indicators)" using assms(2) by simp
  from fold_update_lookup[of "\<lambda>x. column_name (snd x) (fst x)" "sort_key snd indicators" "(code, label)"
      "\<lambda>x. render (observation all_data (fst x) year)" "[(''Year'', Text year)]", OF d m]
  show ?thesis by (simp add: build_row_fold)
qed

lemma build_row_keys_distinct:
  assumes "distinct (map (\<lambda>(code, label). column_name label code) indicators)"
  shows "map fst (build_row all_data indicators year)
           = ''Year'' # map (\<lambda>(code, label). column_name label code) (sort_key snd indicators)"
proof -
  have d: "distinct (map (\<lambda>x. column_name (snd x) (fst x)) (sort_key snd indicators))"
    using assms by (simp add: distinct_map_sort_key case_prod_column)
  have n: "(\<lambda>x. column_name (snd x) (fst x)) ` set (sort_key snd indicators) \<inter> set [''Year''] = {}"
    by (auto simp: column_name_not_Year[symmetric])
  from fold_new_keys[of "\<lambda>x. column_name (snd x) (fst x)" "sort_key snd indicators" "[''Year'']", OF d n]
  show ?thesis by (simp add: build_row_keys case_prod_column)
qed

text \<open>
  C10. Every row that \<^verbatim>\<open>build_panel\<close> of the IMF extractor returns has the key \<^verbatim>\<open>Year\<close>
  and the keys \<^verbatim>\<open>{label} [{code}]\<close> of the indicators passed as \<^verbatim>\<open>kept\<close>, and no other;
  its keys are those of the first row, in the same order, whatever periods the series
  cover. So the header taken from the first row leaves no field of any row unknown to the
  CSV writer.
\<close>

theorem imf_rows_share_keys:
  "\<forall>row\<in>set (build_panel all_data kept_inds).
     fst ` set row = insert ''Year'' ((\<lambda>(code, label). column_name label code) ` set kept_inds) \<and>
     map fst row = map fst (hd (build_panel all_data kept_inds)) \<and>
     wrong_fields (map fst (hd (build_panel all_data kept_inds))) row = []"
proof
  fix row
  assume r: "row \<in> set (build_panel all_data kept_inds)"
  then obtain year where row: "row = build_row all_data kept_inds year"
    by (rule build_panel_rowE)
  from r have ne: "sorted_list_of_set (all_years all_data) \<noteq> []"
    unfolding build_panel_def by auto
  then have h: "hd (build_panel all_data kept_inds)
                  = build_row all_data kept_inds (hd (sorted_list_of_set (all_years all_data)))"
    unfolding build_panel_def by (simp add: hd_map)
  have k: "map fst row = map fst (hd (build_panel all_data kept_inds))"
    unfolding row h by (simp add: build_row_keys)
  have w: "wrong_fields (map fst (hd (build_panel all_data kept_inds))) row = []"
    unfolding wrong_fields_def k[symmetric] by simp
  show "fst ` set row = insert ''Year'' ((\<lambda>(code, label). column_name label code) ` set kept_inds) \<and>
     map fst row = map fst (hd (build_panel all_data kept_inds)) \<and>
     wrong_fields (map fst (hd (build_panel all_data kept_inds))) row = []"
    using k w by (simp add: row build_row_dom)
qed

lemma wb_row_keys_distinct:
  assumes "fst ` set all_data \<subseteq> fst ` set indicator_info"
    and "distinct (map (wb_column indicator_info) (map fst all_data))"
  shows "map fst (fold (\<lambda>code row. AList.update (wb_column indicator_info code)
                                      (render (observation all_data code year)) row)
                    (sort (map fst all_data)) [(''Year'', Text year)])
           = ''Year'' # map (wb_column indicator_info) (sort (map fst all_data))"
proof -
  have d: "distinct (map (wb_column indicator_info) (sort (map fst all_data)))"
    using assms(2) by (simp add: distinct_map_sort_key)
  have n: "wb_column indicator_info ` set (sort (map fst all_data)) \<inter> set [''Year''] = {}"
    using Year_not_wb_column[OF assms(1)] by simp
  from fold_new_keys[of "wb_column indicator_info" "sort (map fst all_data)" "[''Year'']", OF d n]
  show ?thesis by (simp add: fold_update_keys)
qed

lemma wb_row_cell:
  assumes "distinct (map (wb_column indicator_info) (map fst all_data))"
    and "code \<in> fst ` set all_data"
  shows "map_of (fold (\<lambda>code row. AList.update (wb_column indicator_info code)
                                      (render (observation all_data code year)) row)
                    (sort (map fst all_data)) [(''Year'', Text year)]) (wb_column indicator_info code)
           = Some (render (observation all_data code year))"
proof -
  have d: "distinct (map (wb_column indicator_info) (sort (map fst all_data)))"
    using assms(1) by (simp add: distinct_map_sort_key)
  have m: "code \<in> set (sort (map fst all_data))" using assms(2) by simp
  from fold_update_lookup[of "wb_column indicator_info" "sort (map fst all_data)" code
      "\<lambda>code. render (observation all_data code year)" "[(''Year'', Text year)]", OF d m]
  show ?thesis .
qed

text \<open>
  C4 (as amended). When the column names \<^verbatim>\<open>{label} [{code}]\<close> of the indicators are
  pairwise distinct, every row of the IMF panel has the fields \<^verbatim>\<open>Year\<close> and then one
  column per indicator, in ascending order of the label. Every row of the World Bank
  panel has \<^verbatim>\<open>Year\<close> and then one column per indicator in ascending order of the code,
  not of the name.
\<close>

theorem panel_column_order:
  "(distinct (map (\<lambda>(code, label). column_name label code) indicators) \<longrightarrow>
      (\<forall>row\<in>set (build_panel all_data indicators).
         map fst row = ''Year'' # map (\<lambda>(code, label). column_name label code) (sort_key snd indicators)) \<and>
      sorted (map snd (sort_key snd indicators))) \<and>
   (fst ` set all_data \<subseteq> fst ` set indicator_info \<and>
    distinct (map (wb_column indicator_info) (map fst all_data)) \<longrightarrow>
      (\<exists>rows. wb_build_panel all_data indicator_info = Inr rows \<and>
         (\<forall>row\<in>set rows.
            map fst row = ''Year'' # map (wb_column indicator_info) (sort (map fst all_data)))) \<and>
      sorted (sort (map fst all_data)))"
proof (intro conjI impI ballI)
  fix row
  assume d: "distinct (map (\<lambda>(code, label). column_name label code) indicators)"
    and r: "row \<in> set (build_panel all_data indicators)"
  from r obtain year where "row = build_row all_data indicators year"
    by (rule build_panel_rowE)
  then show "map fst row = ''Year'' # map (\<lambda>(code, label). column_name label code) (sort_key snd indicators)"
    using build_row_keys_distinct[OF d] by simp
next
  show "sorted (map snd (sort_key snd indicators))"
    by (rule sorted_sort_key)
next
  assume h: "fst ` set all_data \<subseteq> fst ` set indicator_info \<and>
    distinct (map (wb_column indicator_info) (map fst all_data))"
  then have sub: "fst ` set all_data \<subseteq> fst ` set indicator_info"
    and d: "distinct (map (wb_column indicator_info) (map fst all_data))" by simp_all
  show "\<exists>rows. wb_build_panel all_data indicator_info = Inr rows \<and>
         (\<forall>row\<in>set rows.
            map fst row = ''Year'' # map (wb_column indicator_info) (sort (map fst all_data)))"
    unfolding wb_build_panel_map[OF sub] using wb_row_keys_distinct[OF sub d] by auto
next
  show "sorted (sort (map fst all_data))"
    by simp
qed

text \<open>
  C6 (as amended). When the column names are pairwise distinct: in the row of a period, the cell
  of an indicator is the empty string exactly when the indicator has no observation for
  that period (no entry, or an entry holding \<^verbatim>\<open>None\<close>), and otherwise it is the observed
  number. So a missing observation is never written as zero, and an observed zero is
  written as the number zero, never as the empty string. This holds for the IMF panel
  and, with every code of \<^verbatim>\<open>all_data\<close> present in \<^verbatim>\<open>indicator_info\<close>, for the World Bank
  panel.
\<close>

theorem panel_cell_empty_iff_no_observation:
  "(distinct (map (\<lambda>(code, label). column_name label code) indicators) \<and>
    (code, label) \<in> set indicators \<longrightarrow>
      (\<forall>row\<in>set (build_panel all_data indicators). \<forall>year.
         map_of row ''Year'' = Some (Text year) \<longrightarrow>
           (\<exists>c. map_of row (column_name label code) = Some c \<and>
                (c = Text [] \<longleftrightarrow> observation all_data code year = None) \<and>
                (\<forall>v. observation all_data code year = Some v \<longrightarrow> c = Number v)))) \<and>
   (fst ` set all_data \<subseteq> fst ` set indicator_info \<and>
    distinct (map (wb_column indicator_info) (map fst all_data)) \<and>
    code \<in> fst ` set all_data \<longrightarrow>
      (\<exists>rows. wb_build_panel all_data indicator_info = Inr rows \<and>
         (\<forall>row\<in>set rows. \<forall>year.
            map_of row ''Year'' = Some (Text year) \<longrightarrow>
              (\<exists>c. map_of row (wb_column indicator_info code) = Some c \<and>
                   (c = Text [] \<longleftrightarrow> observation all_data code year = None) \<and>
                   (\<forall>v. observation all_data code year = Some v \<longrightarrow> c = Number v)))))"
proof (intro conjI impI ballI allI)
  fix row year
  assume h: "distinct (map (\<lambda>(code, label). column_name label code) indicators) \<and>
    (code, label) \<in> set indicators"
    and r: "row \<in> set (build_panel all_data indicators)"
    and y: "map_of row ''Year'' = Some (Text year)"
  from r obtain y' where row: "row = build_row all_data indicators y'"
    by (rule build_panel_rowE)
  with y have "y' = year" by (simp add: build_row_Year)
  with row have "map_of row (column_name label code) = Some (render (observation all_data code year))"
    using build_row_cell[of indicators code label all_data year] h by simp
  then show "\<exists>c. map_of row (column_name label code) = Some c \<and>
                (c = Text [] \<longleftrightarrow> observation all_data code year = None) \<and>
                (\<forall>v. observation all_data code year = Some v \<longrightarrow> c = Number v)"
    by (simp add: render_empty_iff)
next
  assume h: "fst ` set all_data \<subseteq> fst ` set indicator_info \<and>
    distinct (map (wb_column indicator_info) (map fst all_data)) \<and>
    code \<in> fst ` set all_data"
  then have sub: "fst ` set all_data \<subseteq> fst ` set indicator_info"
    and d: "distinct (map (wb_column indicator_info) (map fst all_data))"
    and c: "code \<in> fst ` set all_data" by simp_all
  have cell: "\<exists>c. map_of row (wb_column indicator_info code) = Some c \<and>
                   (c = Text [] \<longleftrightarrow> observation all_data code year = None) \<and>
                   (\<forall>v. observation all_data code year = Some v \<longrightarrow> c = Number v)"
    if r: "row \<in> set (map (\<lambda>year. fold (\<lambda>code row. AList.update (wb_column indicator_info code)
                                      (render (observation all_data code year)) row)
                    (sort (map fst all_data)) [(''Year'', Text year)])
                  (sorted_list_of_set (\<Union>d\<in>snd ` set all_data. fst ` set d)))"
      and y: "map_of row ''Year'' = Some (Text year)" for row year
  proof -
    from r obtain y' where row: "row = fold (\<lambda>code row. AList.update (wb_column indicator_info code)
                                      (render (observation all_data code y')) row)
                    (sort (map fst all_data)) [(''Year'', Text y')]"
      by auto
    with y have "y' = year" by (simp add: wb_row_Year[OF sub])
    with row have "map_of row (wb_column indicator_info code) = Some (render (observation all_data code year))"
      using wb_row_cell[OF d c, of year] by simp
    then show ?thesis by (simp add: render_empty_iff)
  qed
  show "\<exists>rows. wb_build_panel all_data indicator_info = Inr rows \<and>
         (\<forall>row\<in>set rows. \<forall>year.
            map_of row ''Year'' = Some (Text year) \<longrightarrow>
              (\<exists>c. map_of row (wb_column indicator_info code) = Some c \<and>
                   (c = Text [] \<longleftrightarrow> observation all_data code year = None) \<and>
                   (\<forall>v. observation all_data code year = Some v \<longrightarrow> c = Number v)))"
    unfolding wb_build_panel_map[OF sub]
  proof (rule exI, rule conjI[OF refl], intro ballI allI impI)
    fix row year
    assume "row \<in> set (map (\<lambda>year. fold (\<lambda>code row. AList.update (wb_column indicator_info code)
                                      (render (observation all_data code year)) row)
                    (sort (map fst all_data)) [(''Year'', Text year)])
                  (sorted_list_of_set (\<Union>d\<in>snd ` set all_data. fst ` set d)))"
      and "map_of row ''Year'' = Some (Text year)"
    then show "\<exists>c. map_of row (wb_column indicator_info code) = Some c \<and>
                   (c = Text [] \<longleftrightarrow> observation all_data code year = None) \<and>
                   (\<forall>v. observation all_data code year = Some v \<longrightarrow> c = Number v)"
      by (rule cell)
  qed
qed

subsection \<open>The panels of the example\<close>

lemma example_panel:
  "build_panel example_data example_indicators =
     [[(''Year'', Text ''2001''), (''Aluminium [B]'', Text []), (''Zinc [A]'', Text [])],
      [(''Year'', Text ''2002''), (''Aluminium [B]'', Number 0), (''Zinc [A]'', Text [])],
      [(''Year'', Text ''2003''), (''Aluminium [B]'', Text []), (''Zinc [A]'', Number 1)]]"
  by code_simp

lemma example_wb_panel:
  "wb_build_panel example_data example_info = Inr
     [[(''Year'', Text ''2001''), (''Zinc [A]'', Text []), (''Aluminium [B]'', Text [])],
      [(''Year'', Text ''2002''), (''Zinc [A]'', Text []), (''Aluminium [B]'', Number 0)],
      [(''Year'', Text ''2003''), (''Zinc [A]'', Number 1), (''Aluminium [B]'', Text [])]]"
  by code_simp

lemma example_columns_distinct:
  "distinct (map (\<lambda>(code, label). column_name label code) example_indicators)"
  by code_simp

lemma example_info_covers: "fst ` set example_data \<subseteq> fst ` set example_info"
  by code_simp

lemma example_wb_columns_distinct:
  "distinct (map (wb_column example_info) (map fst example_data))"
  by code_simp

lemma example_years:
  "sorted_list_of_set (\<Union>d\<in>snd ` set example_data. fst ` set d) = [''2001'', ''2002'', ''2003'']"
  by code_simp

theorem panel_years_sorted_union_witness:
  "fst ` set example_data \<subseteq> fst ` set example_info \<and>
   map (\<lambda>row. map_of row ''Year'') (build_panel example_data example_indicators)
     = [Some (Text ''2001''), Some (Text ''2002''), Some (Text ''2003'')] \<and>
   (\<exists>rows. wb_build_panel example_data example_info = Inr rows \<and>
      map (\<lambda>row. map_of row ''Year'') rows
        = [Some (Text ''2001''), Some (Text ''2002''), Some (Text ''2003'')])"
  using panel_years_sorted_union[of example_data example_indicators example_info]
    example_info_covers
  unfolding example_years by simp

theorem imf_rows_share_keys_witness:
  "build_panel example_data example_indicators ! 2 \<in> set (build_panel example_data example_indicators) \<and>
   fst ` set (build_panel example_data example_indicators ! 2) = {''Year'', ''Zinc [A]'', ''Aluminium [B]''} \<and>
   map fst (build_panel example_data example_indicators ! 2)
     = map fst (build_panel example_data example_indicators ! 0) \<and>
   wrong_fields (map fst (hd (build_panel example_data example_indicators)))
     (build_panel example_data example_indicators ! 2) = []"
proof -
  have m: "build_panel example_data example_indicators ! 2 \<in> set (build_panel example_data example_indicators)"
    by (simp add: example_panel)
  have h: "hd (build_panel example_data example_indicators) = build_panel example_data example_indicators ! 0"
    by (simp add: example_panel)
  have c: "insert ''Year'' ((\<lambda>(code, label). column_name label code) ` set example_indicators)
             = {''Year'', ''Zinc [A]'', ''Aluminium [B]''}"
    by (simp add: example_indicators_def column_name_def)
  from imf_rows_share_keys[of example_data example_indicators, rule_format, OF m]
  show ?thesis using m unfolding h c by simp
qed

text \<open>
  C4 as stated fails for the World Bank panel: with the codes \<^verbatim>\<open>A\<close> and \<^verbatim>\<open>B\<close> named
  Zinc and Aluminium, the column of Zinc comes before the column of Aluminium.
\<close>

theorem panel_column_order_counterexample:
  "wb_build_panel example_data example_info = Inr
     [[(''Year'', Text ''2001''), (''Zinc [A]'', Text []), (''Aluminium [B]'', Text [])],
      [(''Year'', Text ''2002''), (''Zinc [A]'', Text []), (''Aluminium [B]'', Number 0)],
      [(''Year'', Text ''2003''), (''Zinc [A]'', Number 1), (''Aluminium [B]'', Text [])]] \<and>
   map_of example_info ''A'' = Some (Info ''A'' ''Zinc'' [] []) \<and>
   map_of example_info ''B'' = Some (Info ''B'' ''Aluminium'' [] []) \<and>
   \<not> sorted [''Zinc'', ''Aluminium'']"
  by (simp add: example_wb_panel) (simp add: example_info_def)

theorem panel_column_order_witness:
  "distinct (map (\<lambda>(code, label). column_name label code) example_indicators) \<and>
   build_panel example_data example_indicators ! 1 \<in> set (build_panel example_data example_indicators) \<and>
   map fst (build_panel example_data example_indicators ! 1) = [''Year'', ''Aluminium [B]'', ''Zinc [A]''] \<and>
   map snd (sort_key snd example_indicators) = [''Aluminium'', ''Zinc''] \<and>
   fst ` set example_data \<subseteq> fst ` set example_info \<and>
   distinct (map (wb_column example_info) (map fst example_data)) \<and>
   (\<exists>rows. wb_build_panel example_data example_info = Inr rows \<and> rows ! 1 \<in> set rows \<and>
      map fst (rows ! 1) = [''Year'', ''Zinc [A]'', ''Aluminium [B]'']) \<and>
   sort (map fst example_data) = [''A'', ''B'']"
proof -
  note t = panel_column_order[of example_indicators example_data example_info]
  have m: "build_panel example_data example_indicators ! 1 \<in> set (build_panel example_data example_indicators)"
    by (simp add: example_panel)
  have s1: "sort_key snd example_indicators = [(''B'', ''Aluminium''), (''A'', ''Zinc'')]"
    by code_simp
  have s2: "sort (map fst example_data) = [''A'', ''B'']"
    by code_simp
  have w: "map (wb_column example_info) [''A'', ''B''] = [''Zinc [A]'', ''Aluminium [B]'']"
    by code_simp
  from t example_columns_distinct m
  have 1: "map fst (build_panel example_data example_indicators ! 1) = [''Year'', ''Aluminium [B]'', ''Zinc [A]'']"
    unfolding s1 by (simp add: column_name_def)
  from t example_info_covers example_wb_columns_distinct
  obtain rows where r: "wb_build_panel example_data example_info = Inr rows"
    and k: "\<forall>row\<in>set rows. map fst row = ''Year'' # map (wb_column example_info) (sort (map fst example_data))"
    by auto
  from r have len: "length rows = 3" by (auto simp: example_wb_panel)
  then have m2: "rows ! 1 \<in> set rows" by simp
  with k have 2: "map fst (rows ! 1) = [''Year'', ''Zinc [A]'', ''Aluminium [B]'']"
    unfolding s2 w by simp
  show ?thesis
    using example_columns_distinct m 1 example_info_covers example_wb_columns_distinct r m2 2
    by (simp add: s1 s2)
qed

theorem panel_cell_empty_iff_no_observation_witness:
  "distinct (map (\<lambda>(code, label). column_name label code) example_indicators) \<and>
   (''B'', ''Aluminium'') \<in> set example_indicators \<and>
   build_panel example_data example_indicators ! 1 \<in> set (build_panel example_data example_indicators) \<and>
   map_of (build_panel example_data example_indicators ! 1) ''Year'' = Some (Text ''2002'') \<and>
   observation example_data ''B'' ''2002'' = Some 0 \<and>
   map_of (build_panel example_data example_indicators ! 1) (column_name ''Aluminium'' ''B'') = Some (Number 0) \<and>
   fst ` set example_data \<subseteq> fst ` set example_info \<and>
   distinct (map (wb_column example_info) (map fst example_data)) \<and>
   ''B'' \<in> fst ` set example_data \<and>
   observation example_data ''B'' ''2001'' = None \<and>
   (\<exists>rows. wb_build_panel example_data example_info = Inr rows \<and> rows ! 0 \<in> set rows \<and>
      map_of (rows ! 0) ''Year'' = Some (Text ''2001'') \<and>
      map_of (rows ! 0) (wb_column example_info ''B'') = Some (Text []))"
proof -
  note t = panel_cell_empty_iff_no_observation[where indicators = example_indicators
      and code = "''B''" and label = "''Aluminium''" and all_data = example_data
      and indicator_info = example_info]
  have i: "(''B'', ''Aluminium'') \<in> set example_indicators"
    by (simp add: example_indicators_def)
  have m: "build_panel example_data example_indicators ! 1 \<in> set (build_panel example_data example_indicators)"
    by (simp add: example_panel)
  have y: "map_of (build_panel example_data example_indicators ! 1) ''Year'' = Some (Text ''2002'')"
    by (simp add: example_panel)
  have o: "observation example_data ''B'' ''2002'' = Some 0"
    by code_simp
  have o': "observation example_data ''B'' ''2001'' = None"
    by code_simp
  have b: "''B'' \<in> fst ` set example_data"
    by (simp add: example_data_def)
  from t example_columns_distinct i
  have "\<forall>row\<in>set (build_panel example_data example_indicators). \<forall>year.
         map_of row ''Year'' = Some (Text year) \<longrightarrow>
           (\<exists>c. map_of row (column_name ''Aluminium'' ''B'') = Some c \<and>
                (c = Text [] \<longleftrightarrow> observation example_data ''B'' year = None) \<and>
                (\<forall>v. observation example_data ''B'' year = Some v \<longrightarrow> c = Number v))"
    by simp
  from this[rule_format, OF m y] o
  have 1: "map_of (build_panel example_data example_indicators ! 1) (column_name ''Aluminium'' ''B'') = Some (Number 0)"
    by auto
  from t example_info_covers example_wb_columns_distinct b
  obtain rows where r: "wb_build_panel example_data example_info = Inr rows"
    and k: "\<forall>row\<in>set rows. \<forall>year.
            map_of row ''Year'' = Some (Text year) \<longrightarrow>
              (\<exists>c. map_of row (wb_column example_info ''B'') = Some c \<and>
                   (c = Text [] \<longleftrightarrow> observation example_data ''B'' year = None) \<and>
                   (\<forall>v. observation example_data ''B'' year = Some v \<longrightarrow> c = Number v))"
    by auto
  from r have rows: "rows = [[(''Year'', Text ''2001''), (''Zinc [A]'', Text []), (''Aluminium [B]'', Text [])],
      [(''Year'', Text ''2002''), (''Zinc [A]'', Text []), (''Aluminium [B]'', Number 0)],
      [(''Year'', Text ''2003''), (''Zinc [A]'', Number 1), (''Aluminium [B]'', Text [])]]"
    by (auto simp: example_wb_panel)
  have m2: "rows ! 0 \<in> set rows" and y2: "map_of (rows ! 0) ''Year'' = Some (Text ''2001'')"
    by (simp_all add: rows)
  from k[rule_format, OF m2 y2] o'
  have 2: "map_of (rows ! 0) (wb_column example_info ''B'') = Some (Text [])"
    by auto
  show ?thesis
    using example_columns_distinct i m y o 1 example_info_covers example_wb_columns_distinct b o' r m2 y2 2
    by simp
qed

text \<open>
  C6 as stated fails when two indicators share a column name: the later one overwrites
  the cell of the earlier one. In the row of period 1 the cell of indicator \<^verbatim>\<open>a [b\<close> is
  empty although the indicator has the observation 1 there, and in the row of period 2
  it holds 5 although the indicator has no observation there. Both panels show it.
\<close>

theorem panel_cell_empty_iff_no_observation_counterexample:
  "(''a [b'', ''L'') \<in> set colliding_indicators \<and>
   column_name ''L'' ''a [b'' = ''L [a [b]'' \<and>
   wb_column colliding_info ''a [b'' = ''L [a [b]'' \<and>
   observation colliding_data ''a [b'' ''1'' = Some 1 \<and>
   observation colliding_data ''a [b'' ''2'' = None \<and>
   build_panel colliding_data colliding_indicators =
     [[(''Year'', Text ''1''), (''L [a [b]'', Text [])],
      [(''Year'', Text ''2''), (''L [a [b]'', Number 5)]] \<and>
   wb_build_panel colliding_data colliding_info = Inr
     [[(''Year'', Text ''1''), (''L [a [b]'', Text [])],
      [(''Year'', Text ''2''), (''L [a [b]'', Number 5)]]"
proof -
  have i: "(''a [b'', ''L'') \<in> set colliding_indicators"
    by (simp add: colliding_indicators_def)
  have c: "column_name ''L'' ''a [b'' = ''L [a [b]''"
    by (simp add: column_name_def)
  have w: "wb_column colliding_info ''a [b'' = ''L [a [b]''"
    by (simp add: wb_column_def colliding_info_def column_name_def)
  have o: "observation colliding_data ''a [b'' ''1'' = Some 1"
    "observation colliding_data ''a [b'' ''2'' = None"
    by (simp_all add: observation_def colliding_data_def)
  have p: "build_panel colliding_data colliding_indicators =
     [[(''Year'', Text ''1''), (''L [a [b]'', Text [])],
      [(''Year'', Text ''2''), (''L [a [b]'', Number 5)]]"
    by code_simp
  have q: "wb_build_panel colliding_data colliding_info = Inr
     [[(''Year'', Text ''1''), (''L [a [b]'', Text [])],
      [(''Year'', Text ''2''), (''L [a [b]'', Number 5)]]"
    by code_simp
  show ?thesis using i c w o p q by simp
qed

subsection \<open>When the column names are distinct\<close>

text \<open>
  A column name ends with the code in brackets. Two indicators can share a column name
  only when a code contains an opening bracket: for codes without one, distinct codes
  give distinct column names, in both panels.
\<close>

lemma split_at_first_occurrence:
  "a \<notin> set ps \<Longrightarrow> a \<notin> set ps' \<Longrightarrow> ps @ a # ss = ps' @ a # ss' \<Longrightarrow> ps = ps' \<and> ss = ss'"
proof (induction ps arbitrary: ps')
  case Nil
  then show ?case by (cases ps') auto
next
  case (Cons p ps)
  then show ?case by (cases ps') auto
qed

lemma split_at_last_occurrence:
  assumes "xs @ a # ys = xs' @ a # ys'" "a \<notin> set ys" "a \<notin> set ys'"
  shows "xs = xs' \<and> ys = ys'"
proof -
  from assms(1) have "rev (xs @ a # ys) = rev (xs' @ a # ys')" by simp
  then have "rev ys @ a # rev xs = rev ys' @ a # rev xs'" by simp
  moreover have "a \<notin> set (rev ys)" "a \<notin> set (rev ys')" using assms(2,3) by simp_all
  ultimately have "rev ys = rev ys' \<and> rev xs = rev xs'"
    using split_at_first_occurrence[of a "rev ys" "rev ys'" "rev xs" "rev xs'"] by simp
  then show ?thesis by simp
qed

lemma column_name_inj:
  assumes "column_name l1 c1 = column_name l2 c2"
    and "CHR ''['' \<notin> set c1" "CHR ''['' \<notin> set c2"
  shows "c1 = c2 \<and> l1 = l2"
proof -
  have "(l1 @ '' '') @ CHR ''['' # (c1 @ '']'') = (l2 @ '' '') @ CHR ''['' # (c2 @ '']'')"
    using assms(1) by (simp add: column_name_def)
  moreover have "CHR ''['' \<notin> set (c1 @ '']'')" "CHR ''['' \<notin> set (c2 @ '']'')"
    using assms(2,3) by simp_all
  ultimately have "l1 @ '' '' = l2 @ '' '' \<and> c1 @ '']'' = c2 @ '']''"
    by (rule split_at_last_occurrence)
  then show ?thesis by simp
qed

lemma bracket_free_codes_distinct_columns:
  assumes "distinct (map fst indicators)"
    and "\<And>code label. (code, label) \<in> set indicators \<Longrightarrow> CHR ''['' \<notin> set code"
  shows "distinct (map (\<lambda>(code, label). column_name label code) indicators)"
proof -
  have "inj_on (\<lambda>(code, label). column_name label code) (set indicators)"
  proof (rule inj_onI)
    fix x y
    assume x: "x \<in> set indicators" and y: "y \<in> set indicators"
      and e: "(case x of (code, label) \<Rightarrow> column_name label code) = (case y of (code, label) \<Rightarrow> column_name label code)"
    obtain c1 l1 c2 l2 where xy: "x = (c1, l1)" "y = (c2, l2)" by (cases x, cases y)
    from e xy have "column_name l1 c1 = column_name l2 c2" by simp
    moreover have "CHR ''['' \<notin> set c1" "CHR ''['' \<notin> set c2"
      using assms(2) x y xy by simp_all
    ultimately have "c1 = c2 \<and> l1 = l2" by (rule column_name_inj)
    then show "x = y" using xy by simp
  qed
  moreover have "distinct indicators" using assms(1) by (simp add: distinct_map)
  ultimately show ?thesis by (simp add: distinct_map)
qed

lemma bracket_free_codes_distinct_wb_columns:
  assumes "distinct (map fst all_data)"
    and "fst ` set all_data \<subseteq> fst ` set indicator_info"
    and "\<And>code. code \<in> fst ` set all_data \<Longrightarrow> CHR ''['' \<notin> set code"
  shows "distinct (map (wb_column indicator_info) (map fst all_data))"
proof -
  have "inj_on (wb_column indicator_info) (set (map fst all_data))"
  proof (rule inj_onI)
    fix c1 c2
    assume c1: "c1 \<in> set (map fst all_data)" and c2: "c2 \<in> set (map fst all_data)"
      and e: "wb_column indicator_info c1 = wb_column indicator_info c2"
    from c1 c2 have m: "c1 \<in> fst ` set all_data" "c2 \<in> fst ` set all_data" by simp_all
    with assms(2) have "c1 \<in> fst ` set indicator_info" "c2 \<in> fst ` set indicator_info"
      by (auto dest: subsetD)
    then obtain i1 i2 where i: "map_of indicator_info c1 = Some i1" "map_of indicator_info c2 = Some i2"
      by (metis domD dom_map_of_conv_image_fst)
    with e have "column_name (info_name i1) c1 = column_name (info_name i2) c2"
      by (simp add: wb_column_def)
    moreover have "CHR ''['' \<notin> set c1" "CHR ''['' \<notin> set c2"
      using assms(3) m by simp_all
    ultimately have "c1 = c2 \<and> info_name i1 = info_name i2" by (rule column_name_inj)
    then show "c1 = c2" by simp
  qed
  with assms(1) show ?thesis
    by (simp only: distinct_map[of "wb_column indicator_info" "map fst all_data"] simp_thms)
qed

section \<open>Coverage span\<close>

text \<open>The first and the last element of a sorted list are its least and its greatest.\<close>

lemma sorted_hd_Min:
  fixes xs :: "'a::linorder list"
  assumes "sorted xs" "xs \<noteq> []"
  shows "hd xs = Min (set xs)"
proof -
  obtain y ys where xs: "xs = y # ys" using assms(2) by (cases xs) auto
  have "Min (set xs) = y"
  proof (rule Min_eqI)
    show "finite (set xs)" by simp
    show "y \<le> z" if "z \<in> set xs" for z using that assms(1) xs by auto
    show "y \<in> set xs" using xs by simp
  qed
  then show ?thesis using xs by simp
qed

lemma sorted_last_Max:
  fixes xs :: "'a::linorder list"
  assumes "sorted xs" "xs \<noteq> []"
  shows "last xs = Max (set xs)"
proof -
  have "Max (set xs) = last xs"
  proof (rule Max_eqI)
    show "finite (set xs)" by simp
    show "z \<le> last xs" if "z \<in> set xs" for z
      using that assms(1) by (induction xs) (auto split: if_splits)
    show "last xs \<in> set xs" using assms(2) by simp
  qed
  then show ?thesis by simp
qed

lemma years_available_Min_Max:
  "years_available year_dict =
     (if year_dict = [] then []
      else Min (fst ` set year_dict) @ ''-'' @ Max (fst ` set year_dict))"
proof (cases "year_dict = []")
  case True
  then show ?thesis by (simp add: years_available_def)
next
  case False
  then have ne: "sort (map fst year_dict) \<noteq> []"
    by (metis length_sort length_0_conv map_is_Nil_conv)
  have "hd (sort (map fst year_dict)) = Min (set (sort (map fst year_dict)))"
    using ne by (intro sorted_hd_Min) simp_all
  moreover have "last (sort (map fst year_dict)) = Max (set (sort (map fst year_dict)))"
    using ne by (intro sorted_last_Max) simp_all
  ultimately show ?thesis using False ne by (simp add: years_available_def Let_def)
qed

lemma imf_metadata_loop_rows:
  assumes "fst ` set inds \<subseteq> fst ` set all_data"
  shows "imf_metadata_loop all_data inds
           = Inr (map (\<lambda>(code, label). (code, label, years_available (the (map_of all_data code)))) inds)"
  using assms
proof (induction inds)
  case Nil
  then show ?case by simp
next
  case (Cons ind inds)
  obtain code label where ind: "ind = (code, label)" by (cases ind)
  from Cons.prems ind have "code \<in> fst ` set all_data" by simp
  then obtain d where d: "map_of all_data code = Some d"
    by (metis domD dom_map_of_conv_image_fst)
  from Cons have "imf_metadata_loop all_data inds
           = Inr (map (\<lambda>(code, label). (code, label, years_available (the (map_of all_data code)))) inds)"
    by simp
  then show ?case using ind d by simp
qed

lemma wb_metadata_loop_rows:
  assumes "set codes \<subseteq> fst ` set indicator_info" "set codes \<subseteq> fst ` set all_data"
  shows "wb_metadata_loop all_data indicator_info codes
           = Inr (map (\<lambda>code. (the (map_of indicator_info code),
                                 years_available (the (map_of all_data code)))) codes)"
  using assms
proof (induction codes)
  case Nil
  then show ?case by simp
next
  case (Cons code codes)
  from Cons.prems have "code \<in> fst ` set all_data" "code \<in> fst ` set indicator_info" by simp_all
  then obtain d info where d: "map_of all_data code = Some d" and i: "map_of indicator_info code = Some info"
    by (metis domD dom_map_of_conv_image_fst)
  from Cons have "wb_metadata_loop all_data indicator_info codes
           = Inr (map (\<lambda>code. (the (map_of indicator_info code),
                                 years_available (the (map_of all_data code)))) codes)"
    by simp
  then show ?case using d i by simp
qed

text \<open>
  C8. The \<^verbatim>\<open>years_available\<close> field of an indicator is the least of its periods, a
  hyphen and the greatest of its periods, and the empty string for a series without
  periods: observations in 2001, 2003 and 2010 give \<^verbatim>\<open>2001-2010\<close>. Both extractors write
  one metadata row per kept indicator with that field, computed from the indicator's own
  series; with every kept code present in \<^verbatim>\<open>all_data\<close> the metadata loop does not raise.
\<close>

theorem years_available_is_min_max_span:
  "years_available year_dict =
     (if year_dict = [] then []
      else Min (fst ` set year_dict) @ ''-'' @ Max (fst ` set year_dict)) \<and>
   (fst ` set kept_inds \<subseteq> fst ` set all_data \<longrightarrow>
      imf_metadata all_data kept_inds
        = Inr (map (\<lambda>(code, label). (code, label, years_available (the (map_of all_data code))))
                 (sort_key snd kept_inds))) \<and>
   (fst ` set indicator_info \<subseteq> fst ` set all_data \<longrightarrow>
      wb_metadata all_data indicator_info
        = Inr (map (\<lambda>code. (the (map_of indicator_info code),
                              years_available (the (map_of all_data code))))
                 (sort (map fst indicator_info))))"
proof (intro conjI impI)
  show "years_available year_dict =
     (if year_dict = [] then []
      else Min (fst ` set year_dict) @ ''-'' @ Max (fst ` set year_dict))"
    by (rule years_available_Min_Max)
next
  assume "fst ` set kept_inds \<subseteq> fst ` set all_data"
  then show "imf_metadata all_data kept_inds
        = Inr (map (\<lambda>(code, label). (code, label, years_available (the (map_of all_data code))))
                 (sort_key snd kept_inds))"
    unfolding imf_metadata_def by (intro imf_metadata_loop_rows) simp
next
  assume "fst ` set indicator_info \<subseteq> fst ` set all_data"
  then show "wb_metadata all_data indicator_info
        = Inr (map (\<lambda>code. (the (map_of indicator_info code),
                              years_available (the (map_of all_data code))))
                 (sort (map fst indicator_info)))"
    unfolding wb_metadata_def by (intro wb_metadata_loop_rows) simp_all
qed

theorem years_available_is_min_max_span_witness:
  "example_series \<noteq> [] \<and>
   years_available example_series = ''2001-2010'' \<and>
   fst ` set [(''A'', ''Zinc'')] \<subseteq> fst ` set [(''A'', example_series)] \<and>
   imf_metadata [(''A'', example_series)] [(''A'', ''Zinc'')] = Inr [(''A'', ''Zinc'', ''2001-2010'')] \<and>
   fst ` set [(''A'', Info ''A'' ''Zinc'' [] [])] \<subseteq> fst ` set [(''A'', example_series)] \<and>
   wb_metadata [(''A'', example_series)] [(''A'', Info ''A'' ''Zinc'' [] [])]
     = Inr [(Info ''A'' ''Zinc'' [] [], ''2001-2010'')]"
proof -
  note t = years_available_is_min_max_span[of example_series "[(''A'', ''Zinc'')]"
      "[(''A'', example_series)]" "[(''A'', Info ''A'' ''Zinc'' [] [])]"]
  have ne: "example_series \<noteq> []" by (simp add: example_series_def)
  have keys: "fst ` set example_series = {''2003'', ''2001'', ''2010''}"
    by (simp add: example_series_def)
  have mn: "Min {''2003'', ''2001'', ''2010''} = ''2001''" and mx: "Max {''2003'', ''2001'', ''2010''} = ''2010''"
    by simp_all
  from t ne have y: "years_available example_series = ''2001-2010''"
    unfolding keys mn mx by simp
  from t have "imf_metadata [(''A'', example_series)] [(''A'', ''Zinc'')]
                 = Inr [(''A'', ''Zinc'', years_available example_series)]"
    by simp
  moreover from t have "wb_metadata [(''A'', example_series)] [(''A'', Info ''A'' ''Zinc'' [] [])]
                 = Inr [(Info ''A'' ''Zinc'' [] [], years_available example_series)]"
    by simp
  ultimately show ?thesis using ne y by simp
qed

section \<open>The audit of the orchestrator\<close>

text \<open>
  The audit reads the output directories three times: once per provider for the summary
  lines, once for the total of files and once for the total of rows. All three readings
  are of the same final state \<open>fs\<close>.
\<close>

text \<open>
  C9. The grand total of rows that the orchestrator prints is the sum of the row counts
  of the three summary lines, and likewise for the files, for every state of the output
  directories (absent directories and unreadable or empty files included) and whatever
  status each pipeline reported.
\<close>

theorem total_rows_is_sum_of_provider_rows:
  "total_rows fs = sum_list (map line_rows (summary_lines fs results)) \<and>
   total_files fs = sum_list (map line_files (summary_lines fs results))"
proof -
  have rows: "(if fs d \<noteq> None then snd (count_csvs (fs d)) else 0) = snd (count_csvs (fs d))" for d
    by (cases "fs d") simp_all
  have files: "(if fs d \<noteq> None then fst (count_csvs (fs d)) else 0) = fst (count_csvs (fs d))" for d
    by (cases "fs d") simp_all
  have l: "map line_rows (summary_lines fs results)
             = [snd (count_csvs (fs ''ecuador_data/imf'')),
                snd (count_csvs (fs ''ecuador_data/worldbank'')),
                snd (count_csvs (fs ''ecuador_data/fred''))]"
    by (simp add: summary_lines_def SCRIPTS_def data_dirs_def Let_def split_beta)
  have f: "map line_files (summary_lines fs results)
             = [fst (count_csvs (fs ''ecuador_data/imf'')),
                fst (count_csvs (fs ''ecuador_data/worldbank'')),
                fst (count_csvs (fs ''ecuador_data/fred''))]"
    by (simp add: summary_lines_def SCRIPTS_def data_dirs_def Let_def split_beta)
  have t: "total_rows fs
             = (if fs ''ecuador_data/imf'' \<noteq> None then snd (count_csvs (fs ''ecuador_data/imf'')) else 0)
             + ((if fs ''ecuador_data/worldbank'' \<noteq> None then snd (count_csvs (fs ''ecuador_data/worldbank'')) else 0)
             + (if fs ''ecuador_data/fred'' \<noteq> None then snd (count_csvs (fs ''ecuador_data/fred'')) else 0))"
    by (simp add: total_rows_def data_dirs_def)
  have u: "total_files fs
             = (if fs ''ecuador_data/imf'' \<noteq> None then fst (count_csvs (fs ''ecuador_data/imf'')) else 0)
             + ((if fs ''ecuador_data/worldbank'' \<noteq> None then fst (count_csvs (fs ''ecuador_data/worldbank'')) else 0)
             + (if fs ''ecuador_data/fred'' \<noteq> None then fst (count_csvs (fs ''ecuador_data/fred'')) else 0))"
    by (simp add: total_files_def data_dirs_def)
  show ?thesis unfolding l f t u rows files by simp
qed

theorem total_rows_is_sum_of_provider_rows_witness:
  "map line_status (summary_lines example_fs example_results) = [''OK'', ''TIMEOUT'', ''ERROR''] \<and>
   map line_rows (summary_lines example_fs example_results) = [2, 0, 9] \<and>
   total_rows example_fs = 11 \<and>
   total_files example_fs = 5"
proof -
  have s: "map line_status (summary_lines example_fs example_results) = [''OK'', ''TIMEOUT'', ''ERROR'']"
    by (simp add: summary_lines_def SCRIPTS_def data_dirs_def example_results_def Let_def split_beta)
  have r: "map line_rows (summary_lines example_fs example_results) = [2, 0, 9]"
    by (simp add: summary_lines_def SCRIPTS_def data_dirs_def example_fs_def Let_def split_beta)
  have f: "map line_files (summary_lines example_fs example_results) = [4, 0, 1]"
    by (simp add: summary_lines_def SCRIPTS_def data_dirs_def example_fs_def Let_def split_beta)
  from total_rows_is_sum_of_provider_rows[of example_fs example_results]
  show ?thesis unfolding r f using s by simp
qed

section \<open>The crawl\<close>

text \<open>
  On a well-formed tree no listing raises, and the crawl stores the listed series one
  after the other, in the order of the walk. A category whose request for series or for
  children failed lists nothing there; the walk goes on elsewhere.
\<close>

lemma record_series_fold:
  "list_all (\<lambda>e. entry_id e \<noteq> None) ss \<Longrightarrow>
   record_series ss d = fold (\<lambda>x d. AList.update (fst x) (snd x) d) (listed ss) d"
  by (induction ss d rule: record_series.induct) simp_all

lemma crawl_fold:
  "well_formed t \<Longrightarrow>
     crawl_category t d = fold (\<lambda>x d. AList.update (fst x) (snd x) d) (tree_series t) d"
  "well_formed_children cs \<Longrightarrow>
     crawl_children cs d = fold (\<lambda>x d. AList.update (fst x) (snd x) d) (children_series cs) d"
proof (induction t d and cs d rule: crawl_category_crawl_children.induct)
  case (1 sr cr all_series)
  show ?case
  proof (cases cr)
    case None
    with 1 show ?thesis by (cases sr) (simp_all add: record_series_fold)
  next
    case (Some children)
    with 1 show ?thesis by (cases sr) (simp_all add: record_series_fold)
  qed
next
  case (2 all_series)
  then show ?case by simp
next
  case (3 nm ci sub rest all_series)
  then show ?case by auto
qed

lemma fold_update_distinct:
  "distinct (map fst d) \<Longrightarrow>
   distinct (map fst (fold (\<lambda>x d. AList.update (key x) (val x) d) xs d))"
  by (induction xs arbitrary: d) (simp_all add: distinct_update)

lemma fold_update_map_of:
  "map_of (fold (\<lambda>x d. AList.update (fst x) (snd x) d) xs d) = map_of d ++ map_of (rev xs)"
proof (induction xs arbitrary: d)
  case Nil
  then show ?case by simp
next
  case (Cons x xs)
  have "map_of (fold (\<lambda>x d. AList.update (fst x) (snd x) d) (x # xs) d)
          = map_of (AList.update (fst x) (snd x) d) ++ map_of (rev xs)"
    using Cons.IH[of "AList.update (fst x) (snd x) d"] by simp
  also have "\<dots> = (map_of d ++ map_of [x]) ++ map_of (rev xs)"
    by (cases x) (simp add: update_conv')
  also have "\<dots> = map_of d ++ map_of (rev (x # xs))"
    by (simp add: map_add_assoc)
  finally show ?case .
qed

text \<open>
  C7. For every category tree, of any depth, in which the listed series carry their
  identifiers and the listed children their names and identifiers: the crawler returns
  one entry per identifier that the tree lists, however often and in however many
  branches the identifier is listed, so a tree with \<open>K\<close> distinct identifiers yields exactly
  \<open>K\<close> entries; and the label of an identifier is the one of its last listing in the
  depth-first walk. The crawl is a total function: it returns for every finite tree.
\<close>

theorem crawler_returns_each_series_once:
  "well_formed tree \<longrightarrow>
     distinct (map fst (discover_ecuador_series tree)) \<and>
     fst ` set (discover_ecuador_series tree) = fst ` set (tree_series tree) \<and>
     length (discover_ecuador_series tree) = card (fst ` set (tree_series tree)) \<and>
     map_of (discover_ecuador_series tree) = map_of (rev (tree_series tree))"
proof
  assume wf: "well_formed tree"
  have f: "discover_ecuador_series tree
             = fold (\<lambda>x d. AList.update (fst x) (snd x) d) (tree_series tree) []"
    unfolding discover_ecuador_series_def using wf by (rule crawl_fold(1))
  have d: "distinct (map fst (discover_ecuador_series tree))"
    unfolding f by (rule fold_update_distinct) simp
  have k: "fst ` set (discover_ecuador_series tree) = fst ` set (tree_series tree)"
    unfolding f by (simp add: fold_update_dom)
  have "length (discover_ecuador_series tree) = card (fst ` set (discover_ecuador_series tree))"
    using distinct_card[OF d] by simp
  then have l: "length (discover_ecuador_series tree) = card (fst ` set (tree_series tree))"
    using k by simp
  have m: "map_of (discover_ecuador_series tree) = map_of (rev (tree_series tree))"
    unfolding f by (simp add: fold_update_map_of)
  show "distinct (map fst (discover_ecuador_series tree)) \<and>
     fst ` set (discover_ecuador_series tree) = fst ` set (tree_series tree) \<and>
     length (discover_ecuador_series tree) = card (fst ` set (tree_series tree)) \<and>
     map_of (discover_ecuador_series tree) = map_of (rev (tree_series tree))"
    using d k l m by simp
qed

lemma example_tree_series:
  "tree_series example_tree =
     [(''ECUNGDPD'', ''GDP''), (''ECUPOP'', ''ECUPOP''),
      (''ECUNGDPD'', ''GDP, revised''), (''ECUCPI'', ''CPI'')]"
  by (simp add: example_tree_def)

theorem crawler_returns_each_series_once_witness:
  "well_formed example_tree \<and>
   tree_series example_tree =
     [(''ECUNGDPD'', ''GDP''), (''ECUPOP'', ''ECUPOP''),
      (''ECUNGDPD'', ''GDP, revised''), (''ECUCPI'', ''CPI'')] \<and>
   discover_ecuador_series example_tree =
     [(''ECUNGDPD'', ''GDP, revised''), (''ECUPOP'', ''ECUPOP''), (''ECUCPI'', ''CPI'')] \<and>
   length (discover_ecuador_series example_tree) = 3 \<and>
   map_of (discover_ecuador_series example_tree) ''ECUNGDPD'' = Some ''GDP, revised''"
proof -
  have wf: "well_formed example_tree"
    by (simp add: example_tree_def)
  have r: "discover_ecuador_series example_tree =
     [(''ECUNGDPD'', ''GDP, revised''), (''ECUPOP'', ''ECUPOP''), (''ECUCPI'', ''CPI'')]"
    by (simp add: discover_ecuador_series_def example_tree_def)
  have c: "card (fst ` set (tree_series example_tree)) = 3"
    by code_simp
  from crawler_returns_each_series_once[of example_tree] wf
  have len: "length (discover_ecuador_series example_tree) = card (fst ` set (tree_series example_tree))"
    and last_wins: "map_of (discover_ecuador_series example_tree) = map_of (rev (tree_series example_tree))"
    by simp_all
  from len have "length (discover_ecuador_series example_tree) = 3"
    unfolding c .
  moreover from last_wins have "map_of (discover_ecuador_series example_tree) ''ECUNGDPD'' = Some ''GDP, revised''"
    unfolding example_tree_series by simp
  ultimately have "length (discover_ecuador_series example_tree) = 3 \<and>
    map_of (discover_ecuador_series example_tree) ''ECUNGDPD'' = Some ''GDP, revised''"
    by simp
  then show ?thesis using wf r example_tree_series by simp
qed

end
